theory Spec2Isabelle
  imports Complex_Main
begin

section \<open>Numbers, vectors and errors\<close>

text \<open>
  The program computes with NumPy arrays of 64-bit floats. Rounding, overflow and infinities
  are not modelled: a finite float is an exact \<open>real\<close>, and sensor readings are taken to be
  finite. The one operation of the program that leaves the finite numbers is \<open>np.sqrt\<close> of a
  negative number, which yields \<open>nan\<close> (with a warning, no exception); an \<open>npfloat\<close> is a
  finite number or \<open>NaN\<close>, and \<open>NaN\<close> propagates through arithmetic as it does in
  IEEE 754. Division by zero, which the modelled code never reaches, is collapsed to \<open>NaN\<close>.
\<close>

datatype npfloat = Fin real | NaN

instantiation npfloat :: "{comm_monoid_add, comm_monoid_mult, comm_semiring, minus, inverse}"
begin

definition zero_npfloat :: npfloat where
  "zero_npfloat = Fin 0"

definition one_npfloat :: npfloat where
  "one_npfloat = Fin 1"

definition plus_npfloat :: "npfloat \<Rightarrow> npfloat \<Rightarrow> npfloat" where
  "plus_npfloat a b = (case (a, b) of (Fin x, Fin y) \<Rightarrow> Fin (x + y) | _ \<Rightarrow> NaN)"

definition minus_npfloat :: "npfloat \<Rightarrow> npfloat \<Rightarrow> npfloat" where
  "minus_npfloat a b = (case (a, b) of (Fin x, Fin y) \<Rightarrow> Fin (x - y) | _ \<Rightarrow> NaN)"

definition times_npfloat :: "npfloat \<Rightarrow> npfloat \<Rightarrow> npfloat" where
  "times_npfloat a b = (case (a, b) of (Fin x, Fin y) \<Rightarrow> Fin (x * y) | _ \<Rightarrow> NaN)"

definition divide_npfloat :: "npfloat \<Rightarrow> npfloat \<Rightarrow> npfloat" where
  "divide_npfloat a b =
     (case (a, b) of (Fin x, Fin y) \<Rightarrow> if y = 0 then NaN else Fin (x / y) | _ \<Rightarrow> NaN)"

definition inverse_npfloat :: "npfloat \<Rightarrow> npfloat" where
  "inverse_npfloat a = (case a of Fin x \<Rightarrow> if x = 0 then NaN else Fin (inverse x) | NaN \<Rightarrow> NaN)"

instance
proof
  fix a b c :: npfloat
  show "a + b + c = a + (b + c)"
    by (cases a; cases b; cases c) (simp_all add: plus_npfloat_def)
  show "a + b = b + a"
    by (cases a; cases b) (simp_all add: plus_npfloat_def)
  show "0 + a = a"
    by (cases a) (simp_all add: plus_npfloat_def zero_npfloat_def)
  show "a * b * c = a * (b * c)"
    by (cases a; cases b; cases c) (simp_all add: times_npfloat_def)
  show "a * b = b * a"
    by (cases a; cases b) (simp_all add: times_npfloat_def)
  show "1 * a = a"
    by (cases a) (simp_all add: times_npfloat_def one_npfloat_def)
  show "(a + b) * c = a * c + b * c"
    by (cases a; cases b; cases c) (simp_all add: times_npfloat_def plus_npfloat_def algebra_simps)
qed

end

definition np_sqrt :: "real \<Rightarrow> npfloat" where
  "np_sqrt x = (if x < 0 then NaN else Fin (sqrt x))"

text \<open>
  Arrays of shape \<open>(3,)\<close> are triples and arrays of shape \<open>(3, 3)\<close> triples of rows; an
  array of shape \<open>(N, 3)\<close> is a list of triples. \<open>vecmat3 v A\<close> is \<open>v @ A\<close> for a vector
  \<open>v\<close>, and \<open>matmul3 A B\<close> is \<open>A @ B\<close>.
\<close>

type_synonym 'a vector3 = "'a \<times> 'a \<times> 'a"
type_synonym 'a matrix3 = "'a vector3 vector3"
type_synonym vec3 = "real vector3"
type_synonym mat3 = "real matrix3"

definition transpose3 :: "'a matrix3 \<Rightarrow> 'a matrix3" where
  "transpose3 A =
     (case A of ((a11, a12, a13), (a21, a22, a23), (a31, a32, a33)) \<Rightarrow>
        ((a11, a21, a31), (a12, a22, a32), (a13, a23, a33)))"

definition dot3 :: "'a::{plus,times} vector3 \<Rightarrow> 'a vector3 \<Rightarrow> 'a" where
  "dot3 u v = (case (u, v) of ((u1, u2, u3), (v1, v2, v3)) \<Rightarrow> u1 * v1 + u2 * v2 + u3 * v3)"

definition vecmat3 :: "'a::{plus,times} vector3 \<Rightarrow> 'a matrix3 \<Rightarrow> 'a vector3" where
  "vecmat3 v A = (case transpose3 A of (c1, c2, c3) \<Rightarrow> (dot3 v c1, dot3 v c2, dot3 v c3))"

definition matmul3 :: "'a::{plus,times} matrix3 \<Rightarrow> 'a matrix3 \<Rightarrow> 'a matrix3" where
  "matmul3 A B = (case A of (r1, r2, r3) \<Rightarrow> (vecmat3 r1 B, vecmat3 r2 B, vecmat3 r3 B))"

definition map_vector3 :: "('a \<Rightarrow> 'b) \<Rightarrow> 'a vector3 \<Rightarrow> 'b vector3" where
  "map_vector3 f v = (case v of (v1, v2, v3) \<Rightarrow> (f v1, f v2, f v3))"

definition map_matrix3 :: "('a \<Rightarrow> 'b) \<Rightarrow> 'a matrix3 \<Rightarrow> 'b matrix3" where
  "map_matrix3 f A = map_vector3 (map_vector3 f) A"

definition zip_vector3 :: "('a \<Rightarrow> 'b \<Rightarrow> 'c) \<Rightarrow> 'a vector3 \<Rightarrow> 'b vector3 \<Rightarrow> 'c vector3" where
  "zip_vector3 f u v = (case (u, v) of ((u1, u2, u3), (v1, v2, v3)) \<Rightarrow> (f u1 v1, f u2 v2, f u3 v3))"

text \<open>\<open>np.diag\<close> of a vector, and the identity matrix.\<close>

definition diag3 :: "'a::zero vector3 \<Rightarrow> 'a matrix3" where
  "diag3 d = (case d of (d1, d2, d3) \<Rightarrow> ((d1, 0, 0), (0, d2, 0), (0, 0, d3)))"

definition identity3 :: "'a::{zero,one} matrix3" where
  "identity3 = diag3 (1, 1, 1)"

text \<open>
  The ways the two scripts stop early: the printed \<open>[ERROR]\<close> returns of
  \<open>magnet_calibration.py\<close> and the Python exceptions the modelled code can raise.
\<close>

datatype error = NotEnoughData | NoReferencePose | ValueError | UnicodeDecodeError

section \<open>magnet\_calibration.py\<close>

subsection \<open>Stage 1: calculate\_and\_save\_calibration\<close>

text \<open>
  \<open>np.min(data, axis=0)\<close> and \<open>np.max(data, axis=0)\<close>: the reduction of each column, which
  raises \<open>ValueError\<close> on an array without rows.
\<close>

definition amin :: "real list \<Rightarrow> real" where
  "amin xs = fold min (tl xs) (hd xs)"

definition amax :: "real list \<Rightarrow> real" where
  "amax xs = fold max (tl xs) (hd xs)"

definition column0 :: "vec3 list \<Rightarrow> real list" where
  "column0 data = map (\<lambda>(x, y, z). x) data"

definition column1 :: "vec3 list \<Rightarrow> real list" where
  "column1 data = map (\<lambda>(x, y, z). y) data"

definition column2 :: "vec3 list \<Rightarrow> real list" where
  "column2 data = map (\<lambda>(x, y, z). z) data"

definition np_min_axis0 :: "vec3 list \<Rightarrow> error + vec3" where
  "np_min_axis0 data =
     (if data = [] then Inl ValueError
      else Inr (amin (column0 data), amin (column1 data), amin (column2 data)))"

definition np_max_axis0 :: "vec3 list \<Rightarrow> error + vec3" where
  "np_max_axis0 data =
     (if data = [] then Inl ValueError
      else Inr (amax (column0 data), amax (column1 data), amax (column2 data)))"

text \<open>
  A row of the design matrix \<open>D\<close> (shape \<open>(N, 6)\<close>) for one centered sample, and the matrix
  \<open>M\<close> built from the six fitted coefficients \<open>v[0..5]\<close>.
\<close>

type_synonym vec6 = "real \<times> real \<times> real \<times> real \<times> real \<times> real"

definition design_row :: "vec3 \<Rightarrow> vec6" where
  "design_row p = (case p of (x, y, z) \<Rightarrow> (x\<^sup>2, y\<^sup>2, z\<^sup>2, 2 * x * y, 2 * x * z, 2 * y * z))"

definition assemble_M :: "vec6 \<Rightarrow> mat3" where
  "assemble_M v = (case v of (v0, v1, v2, v3, v4, v5) \<Rightarrow> ((v0, v3, v4), (v3, v1, v5), (v4, v5, v2)))"

text \<open>
  \<open>eig_vecs @ np.sqrt(np.diag(eig_vals)) @ eig_vecs.T\<close>: the square root is taken of every
  entry of the diagonal matrix, and the product associates to the left.
\<close>

definition soft_iron :: "vec3 \<Rightarrow> mat3 \<Rightarrow> npfloat matrix3" where
  "soft_iron eig_vals eig_vecs =
     matmul3 (matmul3 (map_matrix3 Fin eig_vecs) (map_matrix3 np_sqrt (diag3 eig_vals)))
       (map_matrix3 Fin (transpose3 eig_vecs))"

text \<open>
  \<open>np.linalg.lstsq(D, b, rcond=None)[0]\<close> and \<open>np.linalg.eigh\<close> are library code, taken as
  parameters. \<open>eigh M\<close> returns the eigenvalues and the matrix whose columns are the
  eigenvectors. Both are taken to return a value: a \<open>LinAlgError\<close> from an iteration that does
  not converge is not modelled. The function returns \<open>(None, None)\<close> after printing
  \<open>[ERROR] Not enough data for calibration.\<close>, which is \<open>Inl NotEnoughData\<close> here; the
  \<open>data is None\<close> case is the input \<open>None\<close>. Printing and saving the parameters to the
  \<open>.npz\<close> file are not modelled.
\<close>

type_synonym lstsq_fn = "vec6 list \<Rightarrow> real list \<Rightarrow> vec6"
type_synonym eigh_fn = "mat3 \<Rightarrow> vec3 \<times> mat3"

text \<open>Lines 71 to 77: the design matrix \<open>D\<close> and the fitted coefficients \<open>v\<close>.\<close>

definition ellipsoid_fit :: "lstsq_fn \<Rightarrow> vec3 list \<Rightarrow> vec6" where
  "ellipsoid_fit lstsq centered_data =
     (let D = map design_row centered_data
      in lstsq D (replicate (length centered_data) 1))"

definition calculate_and_save_calibration ::
    "lstsq_fn \<Rightarrow> eigh_fn \<Rightarrow> vec3 list option \<Rightarrow> error + vec3 \<times> npfloat matrix3" where
  "calculate_and_save_calibration lstsq eigh data_opt =
     (case data_opt of
        None \<Rightarrow> Inl NotEnoughData
      | Some data \<Rightarrow>
          if length data < 50 then Inl NotEnoughData
          else
            (case np_min_axis0 data of
               Inl e \<Rightarrow> Inl e
             | Inr min_vals \<Rightarrow>
                 (case np_max_axis0 data of
                    Inl e \<Rightarrow> Inl e
                  | Inr max_vals \<Rightarrow>
                      let hard_iron_offset =
                            map_vector3 (\<lambda>s. s / 2) (zip_vector3 (+) max_vals min_vals);
                          centered_data = map (\<lambda>p. zip_vector3 (-) p hard_iron_offset) data;
                          v = ellipsoid_fit lstsq centered_data;
                          M = assemble_M v
                      in (case eigh M of
                            (eig_vals, eig_vecs) \<Rightarrow>
                              Inr (hard_iron_offset, soft_iron eig_vals eig_vecs)))))"

subsection \<open>What the library functions are assumed to return\<close>

definition dot6 :: "vec6 \<Rightarrow> vec6 \<Rightarrow> real" where
  "dot6 r v =
     (case (r, v) of ((r0, r1, r2, r3, r4, r5), (v0, v1, v2, v3, v4, v5)) \<Rightarrow>
        r0 * v0 + r1 * v1 + r2 * v2 + r3 * v3 + r4 * v4 + r5 * v5)"

text \<open>The sum of squared residuals \<open>|D v - b|\<^sup>2\<close>, and what it is to minimise it.\<close>

definition residual :: "vec6 list \<Rightarrow> real list \<Rightarrow> vec6 \<Rightarrow> real" where
  "residual D b v = (\<Sum>(r, bi) \<leftarrow> zip D b. (dot6 r v - bi)\<^sup>2)"

definition least_squares :: "vec6 list \<Rightarrow> real list \<Rightarrow> vec6 \<Rightarrow> bool" where
  "least_squares D b v \<longleftrightarrow> (\<forall>u. residual D b v \<le> residual D b u)"

text \<open>
  \<open>eigh_spec M w Q\<close>: the columns of \<open>Q\<close> are orthonormal and \<open>M = Q diag(w) Q\<^sup>T\<close>.
\<close>

definition eigh_spec :: "mat3 \<Rightarrow> vec3 \<Rightarrow> mat3 \<Rightarrow> bool" where
  "eigh_spec M w Q \<longleftrightarrow>
     matmul3 (transpose3 Q) Q = identity3 \<and>
     matmul3 Q (transpose3 Q) = identity3 \<and>
     matmul3 (matmul3 Q (diag3 w)) (transpose3 Q) = M"

subsection \<open>Sample sets\<close>

text \<open>
  Three sample sets for the calibration fit, each point repeated to reach 50 samples: points
  of the unit sphere, points of the unit circle in the plane \<open>z = 0\<close>, and points of the
  hyperboloid \<open>x\<^sup>2 + y\<^sup>2 - z\<^sup>2 = 1\<close>.
\<close>

definition sphere_samples :: "vec3 list" where
  "sphere_samples =
     replicate 6 (1, 0, 0) @ replicate 6 (- 1, 0, 0) @ replicate 6 (0, 1, 0) @
     replicate 6 (0, - 1, 0) @ replicate 6 (0, 0, 1) @ replicate 6 (0, 0, - 1) @
     replicate 6 (3 / 5, 4 / 5, 0) @ replicate 6 (3 / 5, 0, 4 / 5) @ replicate 6 (0, 3 / 5, 4 / 5)"

definition planar_samples :: "vec3 list" where
  "planar_samples =
     replicate 10 (1, 0, 0) @ replicate 10 (- 1, 0, 0) @ replicate 10 (0, 1, 0) @
     replicate 10 (0, - 1, 0) @ replicate 10 (3 / 5, 4 / 5, 0)"

definition hyperboloid_samples :: "vec3 list" where
  "hyperboloid_samples =
     replicate 5 (1, 0, 0) @ replicate 5 (- 1, 0, 0) @ replicate 5 (0, 1, 0) @
     replicate 5 (0, - 1, 0) @ replicate 5 (5 / 3, 0, 4 / 3) @ replicate 5 (5 / 3, 0, - 4 / 3) @
     replicate 5 (- 5 / 3, 0, 4 / 3) @ replicate 5 (0, 5 / 3, 4 / 3) @
     replicate 5 (0, - 5 / 3, - 4 / 3) @ replicate 5 (1, 1, 1)"

subsection \<open>Stage 2: live tracking\<close>

definition apply_calibration :: "vec3 \<Rightarrow> vec3 \<Rightarrow> npfloat matrix3 \<Rightarrow> npfloat vector3" where
  "apply_calibration raw_reading offset matrix =
     vecmat3 (map_vector3 Fin (zip_vector3 (-) raw_reading offset)) matrix"

text \<open>
  A line read from the serial port, after \<open>decode\<close>, \<open>strip\<close> and \<open>split(',')\<close>: bytes that
  are not UTF-8, an empty line, or the comma-separated parts, each with the value \<open>float\<close>
  gives it (\<open>None\<close> where \<open>float\<close> raises \<open>ValueError\<close>).
\<close>

datatype line = Undecodable | Blank | Fields "real option list"

text \<open>
  What the body of both reading loops does with a line: an exception, nothing (an empty line
  or not three parts), or a raw reading.
\<close>

definition read_reading :: "line \<Rightarrow> error + vec3 option" where
  "read_reading l =
     (case l of
        Undecodable \<Rightarrow> Inl UnicodeDecodeError
      | Blank \<Rightarrow> Inr None
      | Fields parts \<Rightarrow>
          if length parts = 3 then
            (case parts of
               [Some a, Some b, Some c] \<Rightarrow> Inr (Some (a, b, c))
             | _ \<Rightarrow> Inl ValueError)
          else Inr None)"

text \<open>
  The reference loop catches \<open>ValueError\<close> and \<open>UnicodeDecodeError\<close> and goes on with the
  next line; its argument is the lines read within the three seconds.
\<close>

fun capture_reference :: "vec3 \<Rightarrow> npfloat matrix3 \<Rightarrow> line list \<Rightarrow> npfloat vector3 list" where
  "capture_reference offset matrix [] = []"
| "capture_reference offset matrix (l # ls) =
     (case read_reading l of
        Inr (Some raw_reading) \<Rightarrow>
          apply_calibration raw_reading offset matrix # capture_reference offset matrix ls
      | _ \<Rightarrow> capture_reference offset matrix ls)"

text \<open>\<open>np.mean(readings, axis=0)\<close>.\<close>

definition np_mean_axis0 :: "npfloat vector3 list \<Rightarrow> npfloat vector3" where
  "np_mean_axis0 rs =
     (let n = Fin (real (length rs))
      in (sum_list (map (\<lambda>(a, b, c). a) rs) / n,
          sum_list (map (\<lambda>(a, b, c). b) rs) / n,
          sum_list (map (\<lambda>(a, b, c). c) rs) / n))"

text \<open>
  The tracking loop \<open>while True\<close> runs until \<open>KeyboardInterrupt\<close> or a \<open>SerialException\<close>;
  its argument is the lines read until then. It returns the field deltas it printed and the
  exception, if any, that its body raised (neither \<open>ValueError\<close> nor
  \<open>UnicodeDecodeError\<close> is caught there).
\<close>

fun track :: "vec3 \<Rightarrow> npfloat matrix3 \<Rightarrow> npfloat vector3 \<Rightarrow> line list \<Rightarrow>
    npfloat vector3 list \<times> error option" where
  "track offset matrix reference_baseline [] = ([], None)"
| "track offset matrix reference_baseline (l # ls) =
     (case read_reading l of
        Inl e \<Rightarrow> ([], Some e)
      | Inr None \<Rightarrow> track offset matrix reference_baseline ls
      | Inr (Some raw_reading) \<Rightarrow>
          let calibrated_reading = apply_calibration raw_reading offset matrix;
              field_delta = zip_vector3 (-) calibrated_reading reference_baseline
          in (case track offset matrix reference_baseline ls of
                (deltas, ending) \<Rightarrow> (field_delta # deltas, ending)))"

definition live_tracking_demo :: "vec3 \<Rightarrow> npfloat matrix3 \<Rightarrow> line list \<Rightarrow> line list \<Rightarrow>
    error + npfloat vector3 list \<times> error option" where
  "live_tracking_demo offset matrix reference_lines tracking_lines =
     (let reference_readings = capture_reference offset matrix reference_lines
      in if reference_readings = [] then Inl NoReferencePose
         else
           let reference_baseline = np_mean_axis0 reference_readings
           in Inr (track offset matrix reference_baseline tracking_lines))"

text \<open>
  For stating what the two loops compute: the raw readings among some lines, and the lines
  the tracking loop gets through before an exception ends it.
\<close>

definition raw_readings :: "line list \<Rightarrow> vec3 list" where
  "raw_readings ls =
     concat (map (\<lambda>l. case read_reading l of Inr (Some raw_reading) \<Rightarrow> [raw_reading] | _ \<Rightarrow> []) ls)"

definition processed_lines :: "line list \<Rightarrow> line list" where
  "processed_lines ls = takeWhile (\<lambda>l. \<not> isl (read_reading l)) ls"

section \<open>magnet\_simulation.py\<close>

subsection \<open>Position estimation (section 4 of the script)\<close>

text \<open>
  \<open>scipy.optimize.minimize\<close> and \<open>magpylib\<close>'s \<open>getB\<close> are library code: the model takes
  them as parameters. \<open>getB pos\<close> is the field at the sensor when the magnet is at \<open>pos\<close>
  (the script assigns \<open>magnet.position = pos\<close> and calls \<open>magnet.getB(sensor_pos)\<close>). The
  minimiser gets the objective, the start point \<open>x0\<close> and the \<open>maxiter\<close> option (the method
  is always Nelder-Mead), and returns SciPy's \<open>OptimizeResult\<close>, of which \<open>res_x\<close> is the
  field \<open>x\<close>.
\<close>

record optimize_result =
  res_x :: vec3
  success :: bool
  nit :: nat

type_synonym minimizer = "(vec3 \<Rightarrow> real) \<Rightarrow> vec3 \<Rightarrow> nat \<Rightarrow> optimize_result"

definition objective :: "(vec3 \<Rightarrow> vec3) \<Rightarrow> vec3 \<Rightarrow> vec3 \<Rightarrow> real" where
  "objective getB pos measured_B =
     (case (getB pos, measured_B) of
        ((px, py, pz), (mx, my, mz)) \<Rightarrow> (px - mx)\<^sup>2 + (py - my)\<^sup>2 + (pz - mz)\<^sup>2)"

text \<open>The two variables the loop \<open>for B_meas in noisy_B\<close> updates.\<close>

record solver_state =
  estimated_positions :: "vec3 list"
  last_guess :: vec3

definition initial_state :: solver_state where
  "initial_state = \<lparr>estimated_positions = [], last_guess = (0, 0, 1 / 100)\<rparr>"

definition solve_step :: "minimizer \<Rightarrow> (vec3 \<Rightarrow> vec3) \<Rightarrow> solver_state \<Rightarrow> vec3 \<Rightarrow> solver_state" where
  "solve_step minimize getB st B_meas =
     (let result = minimize (\<lambda>pos. objective getB pos B_meas) (last_guess st) 2000
      in \<lparr>estimated_positions = estimated_positions st @ [res_x result],
          last_guess = res_x result\<rparr>)"

definition estimate_positions :: "minimizer \<Rightarrow> (vec3 \<Rightarrow> vec3) \<Rightarrow> vec3 list \<Rightarrow> solver_state" where
  "estimate_positions minimize getB noisy_B =
     fold (\<lambda>B_meas st. solve_step minimize getB st B_meas) noisy_B initial_state"

subsection \<open>Python's range and slices\<close>

function py_range_up :: "int \<Rightarrow> int \<Rightarrow> int \<Rightarrow> int list" where
  "py_range_up i stop step =
     (if 0 < step \<and> i < stop then i # py_range_up (i + step) stop step else [])"
  by pat_completeness auto
termination
  by (relation "measure (\<lambda>(i, stop, step). nat (stop - i))") auto

function py_range_down :: "int \<Rightarrow> int \<Rightarrow> int \<Rightarrow> int list" where
  "py_range_down i stop step =
     (if step < 0 \<and> stop < i then i # py_range_down (i + step) stop step else [])"
  by pat_completeness auto
termination
  by (relation "measure (\<lambda>(i, stop, step). nat (i - stop))") auto

text \<open>\<open>range(start, stop, step)\<close>; a zero step raises \<open>ValueError\<close>.\<close>

definition py_range :: "int \<Rightarrow> int \<Rightarrow> int \<Rightarrow> error + int list" where
  "py_range start stop step =
     (if step = 0 then Inl ValueError
      else if 0 < step then Inr (py_range_up start stop step)
      else Inr (py_range_down start stop step))"

text \<open>
  \<open>xs[i:j]\<close>: a negative bound counts from the end, and both bounds are clamped to the
  sequence.
\<close>

definition slice_bound :: "nat \<Rightarrow> int \<Rightarrow> nat" where
  "slice_bound n k = (if k < 0 then nat (max 0 (k + int n)) else min (nat k) n)"

definition py_slice :: "'a list \<Rightarrow> int \<Rightarrow> int \<Rightarrow> 'a list" where
  "py_slice xs i j =
     take (slice_bound (length xs) j - slice_bound (length xs) i)
       (drop (slice_bound (length xs) i) xs)"

subsection \<open>Feature windows (section 5 of the script)\<close>

definition window_size :: int where
  "window_size = 50"

text \<open>
  The loop header \<open>for i in range(0, len(t) - window_size, window_size)\<close> and the slice
  \<open>noisy_B[i:i + window_size]\<close> of its body, for any window size \<open>w\<close>.
\<close>

definition window_starts :: "int \<Rightarrow> 'a list \<Rightarrow> error + int list" where
  "window_starts w t = py_range 0 (int (length t) - w) w"

definition feature_windows :: "int \<Rightarrow> 'a list \<Rightarrow> 'b list \<Rightarrow> error + 'b list list" where
  "feature_windows w t noisy_B =
     (case window_starts w t of
        Inl e \<Rightarrow> Inl e
      | Inr starts \<Rightarrow> Inr (map (\<lambda>i. py_slice noisy_B i (i + w)) starts))"

subsection \<open>The spectral-power feature\<close>

text \<open>
  \<open>scipy.signal.welch\<close> is library code, taken as a parameter: it gets the signal, the
  sampling frequency \<open>fs\<close> and \<open>nperseg\<close>, and returns the frequencies and the power
  spectral density. \<open>bool_mask psd idx\<close> is NumPy's \<open>psd[idx]\<close> for a Boolean array.
\<close>

type_synonym welch_fn = "real list \<Rightarrow> real \<Rightarrow> int \<Rightarrow> real list \<times> real list"

definition bool_mask :: "'a list \<Rightarrow> bool list \<Rightarrow> 'a list" where
  "bool_mask xs idx = map fst (filter snd (zip xs idx))"

definition spectral_power :: "welch_fn \<Rightarrow> int \<Rightarrow> vec3 list \<Rightarrow> real" where
  "spectral_power welch w window_B =
     (case welch (map fst window_B) 50 w of
        (freq, psd) \<Rightarrow>
          let idx = map (\<lambda>f. 1 \<le> f \<and> f \<le> 2) freq
          in sum_list (bool_mask psd idx) * 10 ^ 12)"

definition spectral_power_features ::
    "welch_fn \<Rightarrow> int \<Rightarrow> 'a list \<Rightarrow> vec3 list \<Rightarrow> error + real list" where
  "spectral_power_features welch w t noisy_B =
     (case feature_windows w t noisy_B of
        Inl e \<Rightarrow> Inl e
      | Inr windows \<Rightarrow> Inr (map (spectral_power welch w) windows))"

section \<open>Properties\<close>

subsection \<open>Arithmetic with NaN\<close>

lemma npfloat_plus [simp]:
  "Fin x + Fin y = Fin (x + y)" "NaN + a = NaN" "a + NaN = NaN"
  by (simp_all add: plus_npfloat_def split: npfloat.splits)

lemma npfloat_minus [simp]:
  "Fin x - Fin y = Fin (x - y)" "NaN - a = NaN" "a - NaN = NaN"
  by (simp_all add: minus_npfloat_def split: npfloat.splits)

lemma npfloat_times [simp]:
  "Fin x * Fin y = Fin (x * y)" "NaN * a = NaN" "a * NaN = NaN"
  by (simp_all add: times_npfloat_def split: npfloat.splits)

lemma npfloat_divide [simp]:
  "y \<noteq> 0 \<Longrightarrow> Fin x / Fin y = Fin (x / y)" "Fin x / Fin 0 = NaN" "NaN / a = NaN" "a / NaN = NaN"
  by (simp_all add: divide_npfloat_def split: npfloat.splits)

lemma npfloat_add_zero [simp]: "a + Fin 0 = a" "Fin 0 + a = a"
  by (simp_all add: plus_npfloat_def split: npfloat.splits)

lemma npfloat_mult_one [simp]: "a * Fin 1 = a" "Fin 1 * a = a"
  by (simp_all add: times_npfloat_def split: npfloat.splits)

lemmas npfloat_numerals [simp] = zero_npfloat_def one_npfloat_def

subsection \<open>Calibration: accepted inputs and the hard-iron offset\<close>

lemma amin_eq_Min: "xs \<noteq> [] \<Longrightarrow> amin xs = Min (set xs)"
  by (cases xs) (simp_all add: amin_def flip: Min.set_eq_fold)

lemma amax_eq_Max: "xs \<noteq> [] \<Longrightarrow> amax xs = Max (set xs)"
  by (cases xs) (simp_all add: amax_def flip: Max.set_eq_fold)

lemma calibration_accepted:
  assumes "50 \<le> length data"
  shows "calculate_and_save_calibration lstsq eigh (Some data) =
    (let hard_iron_offset =
           ((Max (set (column0 data)) + Min (set (column0 data))) / 2,
            (Max (set (column1 data)) + Min (set (column1 data))) / 2,
            (Max (set (column2 data)) + Min (set (column2 data))) / 2);
         M = assemble_M (ellipsoid_fit lstsq (map (\<lambda>p. zip_vector3 (-) p hard_iron_offset) data))
     in Inr (hard_iron_offset, soft_iron (fst (eigh M)) (snd (eigh M))))"
proof -
  have ne: "data \<noteq> []" using assms by auto
  then have cols: "column0 data \<noteq> []" "column1 data \<noteq> []" "column2 data \<noteq> []"
    by (simp_all add: column0_def column1_def column2_def)
  have mn: "np_min_axis0 data =
      Inr (Min (set (column0 data)), Min (set (column1 data)), Min (set (column2 data)))"
    using ne cols by (simp add: np_min_axis0_def amin_eq_Min)
  have mx: "np_max_axis0 data =
      Inr (Max (set (column0 data)), Max (set (column1 data)), Max (set (column2 data)))"
    using ne cols by (simp add: np_max_axis0_def amax_eq_Max)
  show ?thesis
    using assms
    by (simp add: calculate_and_save_calibration_def mn mx Let_def
        map_vector3_def zip_vector3_def split: prod.splits)
qed

text \<open>
  Claim C7. With no data or fewer than 50 samples the fit stops with the not-enough-data
  error and produces no parameters; with 50 samples or more it returns parameters.
\<close>

theorem insufficient_data:
  "calculate_and_save_calibration lstsq eigh None = Inl NotEnoughData \<and>
   (length data < 50 \<longrightarrow>
      calculate_and_save_calibration lstsq eigh (Some data) = Inl NotEnoughData) \<and>
   (50 \<le> length data \<longrightarrow>
      (\<exists>params. calculate_and_save_calibration lstsq eigh (Some data) = Inr params))"
proof (intro conjI impI)
  show "calculate_and_save_calibration lstsq eigh None = Inl NotEnoughData"
    by (simp add: calculate_and_save_calibration_def)
  show "calculate_and_save_calibration lstsq eigh (Some data) = Inl NotEnoughData"
    if "length data < 50"
    using that by (simp add: calculate_and_save_calibration_def)
  show "\<exists>params. calculate_and_save_calibration lstsq eigh (Some data) = Inr params"
    if "50 \<le> length data"
    using calibration_accepted[OF that, of lstsq eigh] unfolding Let_def by blast
qed

theorem insufficient_data_witness:
  "length (replicate 49 (1, 2, 3 :: real)) < 50 \<and>
   calculate_and_save_calibration (\<lambda>D b. (1, 1, 1, 0, 0, 0)) (\<lambda>M. ((1, 1, 1), identity3))
     (Some (replicate 49 (1, 2, 3))) = Inl NotEnoughData \<and>
   50 \<le> length (replicate 50 (1, 2, 3 :: real)) \<and>
   calculate_and_save_calibration (\<lambda>D b. (1, 1, 1, 0, 0, 0)) (\<lambda>M. ((1, 1, 1), identity3))
     (Some (replicate 50 (1, 2, 3))) \<noteq> Inl NotEnoughData"
  using insufficient_data[of "\<lambda>D b. (1, 1, 1, 0, 0, 0)" "\<lambda>M. ((1, 1, 1), identity3)" "replicate 49 (1, 2, 3)"]
    insufficient_data[of "\<lambda>D b. (1, 1, 1, 0, 0, 0)" "\<lambda>M. ((1, 1, 1), identity3)" "replicate 50 (1, 2, 3)"]
  by auto

text \<open>
  Claim C5. For a sample set of at least 50 samples the returned offset is, on each axis, the
  midpoint \<open>(min + max) / 2\<close> of that axis's values over all samples.
\<close>

theorem hard_iron_offset_is_midpoint:
  assumes "50 \<le> length data"
  shows "\<exists>matrix. calculate_and_save_calibration lstsq eigh (Some data) =
    Inr (((Min ((\<lambda>(x, y, z). x) ` set data) + Max ((\<lambda>(x, y, z). x) ` set data)) / 2,
          (Min ((\<lambda>(x, y, z). y) ` set data) + Max ((\<lambda>(x, y, z). y) ` set data)) / 2,
          (Min ((\<lambda>(x, y, z). z) ` set data) + Max ((\<lambda>(x, y, z). z) ` set data)) / 2),
         matrix)"
proof -
  let ?X = "(\<lambda>(x, y, z). x) ` set data" and ?Y = "(\<lambda>(x, y, z). y) ` set data"
    and ?Z = "(\<lambda>(x, y, z). z) ` set data"
  have cols: "set (column0 data) = ?X" "set (column1 data) = ?Y" "set (column2 data) = ?Z"
    by (simp_all add: column0_def column1_def column2_def)
  have "\<exists>matrix. calculate_and_save_calibration lstsq eigh (Some data) =
      Inr (((Max ?X + Min ?X) / 2, (Max ?Y + Min ?Y) / 2, (Max ?Z + Min ?Z) / 2), matrix)"
    using calibration_accepted[OF assms, of lstsq eigh] unfolding Let_def cols by blast
  then show ?thesis
    by (simp only: add.commute[of "Min ?X" "Max ?X"] add.commute[of "Min ?Y" "Max ?Y"]
        add.commute[of "Min ?Z" "Max ?Z"])
qed

theorem hard_iron_offset_is_midpoint_witness:
  "50 \<le> length (replicate 25 (1, 5, -2 :: real) @ replicate 25 (3, -1, 0)) \<and>
   (\<exists>matrix. calculate_and_save_calibration (\<lambda>D b. (1, 1, 1, 0, 0, 0)) (\<lambda>M. ((1, 1, 1), identity3))
      (Some (replicate 25 (1, 5, -2) @ replicate 25 (3, -1, 0))) = Inr ((2, 2, -1), matrix))"
  using hard_iron_offset_is_midpoint[of "replicate 25 (1, 5, -2 :: real) @ replicate 25 (3, -1, 0)"
     "\<lambda>D b. (1, 1, 1, 0, 0, 0)" "\<lambda>M. ((1, 1, 1), identity3)"]
  by (simp add: image_Un)

subsection \<open>The soft-iron matrix\<close>

lemma np_sqrt_simps [simp]:
  "np_sqrt 0 = Fin 0" "x < 0 \<Longrightarrow> np_sqrt x = NaN" "0 \<le> x \<Longrightarrow> np_sqrt x = Fin (sqrt x)"
  by (simp_all add: np_sqrt_def)

lemma soft_iron_components:
  "soft_iron (w1, w2, w3) ((q11, q12, q13), (q21, q22, q23), (q31, q32, q33)) =
   ((Fin q11 * np_sqrt w1 * Fin q11 + Fin q12 * np_sqrt w2 * Fin q12 + Fin q13 * np_sqrt w3 * Fin q13,
     Fin q11 * np_sqrt w1 * Fin q21 + Fin q12 * np_sqrt w2 * Fin q22 + Fin q13 * np_sqrt w3 * Fin q23,
     Fin q11 * np_sqrt w1 * Fin q31 + Fin q12 * np_sqrt w2 * Fin q32 + Fin q13 * np_sqrt w3 * Fin q33),
    (Fin q21 * np_sqrt w1 * Fin q11 + Fin q22 * np_sqrt w2 * Fin q12 + Fin q23 * np_sqrt w3 * Fin q13,
     Fin q21 * np_sqrt w1 * Fin q21 + Fin q22 * np_sqrt w2 * Fin q22 + Fin q23 * np_sqrt w3 * Fin q23,
     Fin q21 * np_sqrt w1 * Fin q31 + Fin q22 * np_sqrt w2 * Fin q32 + Fin q23 * np_sqrt w3 * Fin q33),
    (Fin q31 * np_sqrt w1 * Fin q11 + Fin q32 * np_sqrt w2 * Fin q12 + Fin q33 * np_sqrt w3 * Fin q13,
     Fin q31 * np_sqrt w1 * Fin q21 + Fin q32 * np_sqrt w2 * Fin q22 + Fin q33 * np_sqrt w3 * Fin q23,
     Fin q31 * np_sqrt w1 * Fin q31 + Fin q32 * np_sqrt w2 * Fin q32 + Fin q33 * np_sqrt w3 * Fin q33))"
  by (simp add: soft_iron_def matmul3_def vecmat3_def dot3_def transpose3_def map_matrix3_def
      map_vector3_def diag3_def)

lemma soft_iron_symmetric: "transpose3 (soft_iron w Q) = soft_iron w Q"
proof -
  obtain w1 w2 w3 where w: "w = (w1, w2, w3)" by (cases w) auto
  obtain q11 q12 q13 q21 q22 q23 q31 q32 q33
    where Q: "Q = ((q11, q12, q13), (q21, q22, q23), (q31, q32, q33))"
    by (cases Q) auto
  show ?thesis
    unfolding w Q soft_iron_components
    by (simp add: transpose3_def mult.commute mult.left_commute)
qed

lemma soft_iron_negative_eigenvalue:
  assumes "w1 < 0 \<or> w2 < 0 \<or> w3 < 0"
  shows "soft_iron (w1, w2, w3) Q = ((NaN, NaN, NaN), (NaN, NaN, NaN), (NaN, NaN, NaN))"
proof -
  obtain q11 q12 q13 q21 q22 q23 q31 q32 q33
    where Q: "Q = ((q11, q12, q13), (q21, q22, q23), (q31, q32, q33))"
    by (cases Q) auto
  from assms have "np_sqrt w1 = NaN \<or> np_sqrt w2 = NaN \<or> np_sqrt w3 = NaN"
    by auto
  then show ?thesis
    unfolding Q soft_iron_components by auto
qed

lemma soft_iron_nonnegative_eigenvalues:
  assumes "0 \<le> w1" "0 \<le> w2" "0 \<le> w3"
  shows "soft_iron (w1, w2, w3) Q =
    map_matrix3 Fin (matmul3 (matmul3 Q (diag3 (sqrt w1, sqrt w2, sqrt w3))) (transpose3 Q))"
proof -
  obtain q11 q12 q13 q21 q22 q23 q31 q32 q33
    where Q: "Q = ((q11, q12, q13), (q21, q22, q23), (q31, q32, q33))"
    by (cases Q) auto
  show ?thesis
    unfolding Q soft_iron_components using assms
    by (simp add: matmul3_def vecmat3_def dot3_def transpose3_def map_matrix3_def
        map_vector3_def diag3_def)
qed

lemma matmul3_assoc:
  fixes A B C :: "'a::comm_semiring matrix3"
  shows "matmul3 (matmul3 A B) C = matmul3 A (matmul3 B C)"
  by (simp add: matmul3_def vecmat3_def dot3_def transpose3_def split: prod.splits)
     (simp add: algebra_simps)

lemma matmul3_identity [simp]:
  fixes A :: mat3
  shows "matmul3 identity3 A = A" "matmul3 A identity3 = A"
  by (simp_all add: matmul3_def vecmat3_def dot3_def transpose3_def identity3_def diag3_def
      split: prod.splits)

lemma matmul3_diag:
  fixes a1 :: real
  shows "matmul3 (diag3 (a1, a2, a3)) (diag3 (b1, b2, b3)) = diag3 (a1 * b1, a2 * b2, a3 * b3)"
  by (simp add: matmul3_def vecmat3_def dot3_def transpose3_def diag3_def)

lemma identity_eigenvalues:
  assumes "eigh_spec identity3 w Q"
  shows "w = (1, 1, 1)"
proof -
  from assms have orth: "matmul3 (transpose3 Q) Q = identity3"
    and dec: "matmul3 (matmul3 Q (diag3 w)) (transpose3 Q) = identity3"
    by (simp_all add: eigh_spec_def)
  have "matmul3 (transpose3 Q) (matmul3 (matmul3 (matmul3 Q (diag3 w)) (transpose3 Q)) Q) =
      matmul3 (matmul3 (matmul3 (transpose3 Q) Q) (diag3 w)) (matmul3 (transpose3 Q) Q)"
    by (simp only: matmul3_assoc)
  then have "diag3 w = (identity3 :: mat3)"
    by (simp add: orth dec)
  then show ?thesis
    by (cases w) (simp add: identity3_def diag3_def)
qed

lemma soft_iron_unit_eigenvalues:
  assumes "matmul3 Q (transpose3 Q) = identity3"
  shows "soft_iron (1, 1, 1) Q = identity3"
proof -
  have "soft_iron (1, 1, 1) Q = map_matrix3 Fin (matmul3 (matmul3 Q (diag3 (sqrt 1, sqrt 1, sqrt 1))) (transpose3 Q))"
    by (rule soft_iron_nonnegative_eigenvalues) simp_all
  also have "diag3 (sqrt 1, sqrt 1, sqrt 1) = (identity3 :: mat3)"
    by (simp add: identity3_def)
  finally show ?thesis
    by (simp add: assms) (simp add: identity3_def diag3_def map_matrix3_def map_vector3_def)
qed

text \<open>
  When no eigenvalue is negative the returned matrix is a square root of \<open>M\<close>.
\<close>

lemma soft_iron_squares_to_M:
  assumes spec: "eigh_spec M (w1, w2, w3) Q"
    and nonneg: "0 \<le> w1" "0 \<le> w2" "0 \<le> w3"
  shows "matmul3 (soft_iron (w1, w2, w3) Q) (soft_iron (w1, w2, w3) Q) = map_matrix3 Fin M"
proof -
  define S where "S = diag3 (sqrt w1, sqrt w2, sqrt w3)"
  define R where "R = matmul3 (matmul3 Q S) (transpose3 Q)"
  from spec have orth: "matmul3 (transpose3 Q) Q = identity3"
    and dec: "matmul3 (matmul3 Q (diag3 (w1, w2, w3))) (transpose3 Q) = M"
    by (simp_all add: eigh_spec_def)
  have SS: "matmul3 S S = diag3 (w1, w2, w3)"
    using nonneg by (simp add: S_def matmul3_diag)
  have "matmul3 R R = matmul3 Q (matmul3 S (matmul3 (matmul3 (transpose3 Q) Q) (matmul3 S (transpose3 Q))))"
    by (simp only: R_def matmul3_assoc)
  also have "\<dots> = matmul3 (matmul3 Q (matmul3 S S)) (transpose3 Q)"
    by (simp only: orth matmul3_identity matmul3_assoc)
  finally have RR: "matmul3 R R = M"
    by (simp only: SS dec)
  have fin: "matmul3 (map_matrix3 Fin A) (map_matrix3 Fin B) = map_matrix3 Fin (matmul3 A B)"
    for A B :: mat3
    by (simp add: matmul3_def vecmat3_def dot3_def transpose3_def map_matrix3_def map_vector3_def
        split: prod.splits)
  have "soft_iron (w1, w2, w3) Q = map_matrix3 Fin R"
    unfolding R_def S_def by (rule soft_iron_nonnegative_eigenvalues[OF nonneg])
  then show ?thesis
    by (simp only: fin RR)
qed

subsection \<open>Least squares for the ellipsoid equation\<close>

lemma residual_design:
  "residual (map design_row cs) (replicate (length cs) 1) u =
     (\<Sum>p \<leftarrow> cs. (dot6 (design_row p) u - 1)\<^sup>2)"
proof -
  have "zip (map design_row cs) (replicate (length cs) (1::real)) = map (\<lambda>p. (design_row p, 1)) cs"
    by (induction cs) simp_all
  then show ?thesis
    by (simp add: residual_def comp_def)
qed

lemma ellipsoid_equation:
  "dot6 (design_row (x, y, z)) (A, B, C, D, E, F) =
     A * x\<^sup>2 + B * y\<^sup>2 + C * z\<^sup>2 + 2 * D * x * y + 2 * E * x * z + 2 * F * y * z"
  by (simp add: dot6_def design_row_def algebra_simps)

lemma quadratic_form_assemble_M:
  "dot3 (vecmat3 p (assemble_M v)) p = dot6 (design_row p) v"
  by (cases p; cases v)
     (simp add: dot3_def vecmat3_def transpose3_def assemble_M_def dot6_def design_row_def
        power2_eq_square algebra_simps)

lemma residual_nonneg: "0 \<le> residual D b u"
  by (auto simp: residual_def intro!: sum_list_nonneg)

lemma exact_fit_is_least_squares:
  assumes "\<forall>p\<in>set cs. dot6 (design_row p) v = 1"
  shows "least_squares (map design_row cs) (replicate (length cs) 1) v"
proof -
  have "residual (map design_row cs) (replicate (length cs) 1) v = 0"
    unfolding residual_design using assms by (induction cs) simp_all
  then show ?thesis
    by (simp add: least_squares_def residual_nonneg)
qed

lemma least_squares_exact:
  assumes exact: "\<forall>p\<in>set cs. dot6 (design_row p) e = 1"
    and least: "least_squares (map design_row cs) (replicate (length cs) 1) v"
  shows "\<forall>p\<in>set cs. dot6 (design_row p) v = 1"
proof -
  have "residual (map design_row cs) (replicate (length cs) 1) e = 0"
    unfolding residual_design using exact by (induction cs) simp_all
  with least have "residual (map design_row cs) (replicate (length cs) 1) v \<le> 0"
    unfolding least_squares_def by metis
  with residual_nonneg[of "map design_row cs" "replicate (length cs) 1" v]
  have "(\<Sum>p \<leftarrow> cs. (dot6 (design_row p) v - 1)\<^sup>2) = 0"
    unfolding residual_design by linarith
  then have "\<forall>x\<in>set (map (\<lambda>p. (dot6 (design_row p) v - 1)\<^sup>2) cs). x = 0"
    by (subst (asm) sum_list_nonneg_eq_0_iff) auto
  then show ?thesis by auto
qed

lemma dot6_diff:
  "dot6 r (v0 - e0, v1 - e1, v2 - e2, v3 - e3, v4 - e4, v5 - e5) =
     dot6 r (v0, v1, v2, v3, v4, v5) - dot6 r (e0, e1, e2, e3, e4, e5)"
  by (cases r) (simp add: dot6_def algebra_simps)

lemma least_squares_unique:
  assumes exact: "\<forall>p\<in>set cs. dot6 (design_row p) e = 1"
    and rank: "\<forall>u. (\<forall>p\<in>set cs. dot6 (design_row p) u = 0) \<longrightarrow> u = (0, 0, 0, 0, 0, 0)"
    and least: "least_squares (map design_row cs) (replicate (length cs) 1) v"
  shows "v = e"
proof -
  have on: "\<forall>p\<in>set cs. dot6 (design_row p) v = 1"
    by (rule least_squares_exact[OF exact least])
  obtain v0 v1 v2 v3 v4 v5 where v: "v = (v0, v1, v2, v3, v4, v5)"
    by (cases v) auto
  obtain e0 e1 e2 e3 e4 e5 where e: "e = (e0, e1, e2, e3, e4, e5)"
    by (cases e) auto
  have "\<forall>p\<in>set cs. dot6 (design_row p) (v0 - e0, v1 - e1, v2 - e2, v3 - e3, v4 - e4, v5 - e5) = 0"
    using on exact unfolding v e dot6_diff by simp
  with rank have "(v0 - e0, v1 - e1, v2 - e2, v3 - e3, v4 - e4, v5 - e5) = (0, 0, 0, 0, 0, 0)"
    by blast
  then show ?thesis by (simp add: v e)
qed

subsection \<open>The sample sets\<close>

lemma sample_set_lengths:
  "length sphere_samples = 54" "length planar_samples = 50" "length hyperboloid_samples = 50"
  by (simp_all add: sphere_samples_def planar_samples_def hyperboloid_samples_def)

lemma sample_set_points:
  "set sphere_samples = {(1, 0, 0), (- 1, 0, 0), (0, 1, 0), (0, - 1, 0), (0, 0, 1), (0, 0, - 1),
     (3 / 5, 4 / 5, 0), (3 / 5, 0, 4 / 5), (0, 3 / 5, 4 / 5)}"
  "set planar_samples = {(1, 0, 0), (- 1, 0, 0), (0, 1, 0), (0, - 1, 0), (3 / 5, 4 / 5, 0)}"
  "set hyperboloid_samples = {(1, 0, 0), (- 1, 0, 0), (0, 1, 0), (0, - 1, 0), (5 / 3, 0, 4 / 3),
     (5 / 3, 0, - 4 / 3), (- 5 / 3, 0, 4 / 3), (0, 5 / 3, 4 / 3), (0, - 5 / 3, - 4 / 3), (1, 1, 1)}"
  by (auto simp: sphere_samples_def planar_samples_def hyperboloid_samples_def)

lemma sample_set_values:
  "set (column0 sphere_samples) = {1, - 1, 0, 3 / 5}"
  "set (column1 sphere_samples) = {0, 1, - 1, 4 / 5, 3 / 5}"
  "set (column2 sphere_samples) = {0, 1, - 1, 4 / 5}"
  "set (column0 planar_samples) = {1, - 1, 0, 3 / 5}"
  "set (column1 planar_samples) = {0, 1, - 1, 4 / 5}"
  "set (column2 planar_samples) = {0}"
  "set (column0 hyperboloid_samples) = {1, - 1, 0, 5 / 3, - 5 / 3}"
  "set (column1 hyperboloid_samples) = {0, 1, - 1, 5 / 3, - 5 / 3}"
  "set (column2 hyperboloid_samples) = {0, 4 / 3, - 4 / 3, 1}"
  by (auto simp: column0_def column1_def column2_def sphere_samples_def planar_samples_def
      hyperboloid_samples_def)

lemma uncentered [simp]: "map (\<lambda>p. zip_vector3 (-) p (0, 0, 0)) (data :: vec3 list) = data"
  by (induction data) (auto simp: zip_vector3_def)

lemma sphere_samples_rank:
  "\<forall>u. (\<forall>p\<in>set sphere_samples. dot6 (design_row p) u = 0) \<longrightarrow> u = (0, 0, 0, 0, 0, 0)"
proof (intro allI impI)
  fix u assume h: "\<forall>p\<in>set sphere_samples. dot6 (design_row p) u = 0"
  obtain A B C D E F where u: "u = (A, B, C, D, E, F)" by (cases u) auto
  from h have axes: "A = 0" "B = 0" "C = 0"
    by (simp_all add: sample_set_points u ellipsoid_equation)
  from h have "dot6 (design_row (3 / 5, 4 / 5, 0)) u = 0" "dot6 (design_row (3 / 5, 0, 4 / 5)) u = 0"
      "dot6 (design_row (0, 3 / 5, 4 / 5)) u = 0"
    by (simp_all add: sample_set_points)
  then have "D = 0" "E = 0" "F = 0"
    by (simp_all add: u axes ellipsoid_equation)
  with axes show "u = (0, 0, 0, 0, 0, 0)" by (simp add: u)
qed

lemma hyperboloid_samples_rank:
  "\<forall>u. (\<forall>p\<in>set hyperboloid_samples. dot6 (design_row p) u = 0) \<longrightarrow> u = (0, 0, 0, 0, 0, 0)"
proof (intro allI impI)
  fix u assume h: "\<forall>p\<in>set hyperboloid_samples. dot6 (design_row p) u = 0"
  obtain A B C D E F where u: "u = (A, B, C, D, E, F)" by (cases u) auto
  from h have axes: "A = 0" "B = 0"
    by (simp_all add: sample_set_points u ellipsoid_equation)
  from h have "dot6 (design_row (5 / 3, 0, 4 / 3)) u = 0" "dot6 (design_row (5 / 3, 0, - 4 / 3)) u = 0"
    by (simp_all add: sample_set_points)
  then have "16 * C + 40 * E = 0" "16 * C - 40 * E = 0"
    by (simp_all add: u axes ellipsoid_equation power2_eq_square)
  then have CE: "C = 0" "E = 0" by simp_all
  from h have "dot6 (design_row (0, 5 / 3, 4 / 3)) u = 0" "dot6 (design_row (1, 1, 1)) u = 0"
    by (simp_all add: sample_set_points)
  then have "F = 0" "D = 0"
    by (simp_all add: u axes CE ellipsoid_equation)
  with axes CE show "u = (0, 0, 0, 0, 0, 0)" by (simp add: u)
qed

text \<open>
  On the planar sample set, \<open>(1, 1, 0, 0, 0, 0)\<close> is the least-squares solution of least norm
  (the one \<open>lstsq\<close> returns when the design matrix is rank-deficient), and its matrix
  \<open>diag(1, 1, 0)\<close> has the eigenvalues \<open>0, 1, 1\<close>.
\<close>

lemma planar_fit:
  "least_squares (map design_row planar_samples) (replicate (length planar_samples) 1) (1, 1, 0, 0, 0, 0) \<and>
   (\<forall>u. least_squares (map design_row planar_samples) (replicate (length planar_samples) 1) u \<longrightarrow>
      dot6 (1, 1, 0, 0, 0, 0) (1, 1, 0, 0, 0, 0) \<le> dot6 u u) \<and>
   assemble_M (1, 1, 0, 0, 0, 0) = diag3 (1, 1, 0) \<and>
   eigh_spec (diag3 (1, 1, 0)) (0, 1, 1) ((0, 1, 0), (0, 0, 1), (1, 0, 0))"
proof (intro conjI allI impI)
  have exact: "\<forall>p\<in>set planar_samples. dot6 (design_row p) (1, 1, 0, 0, 0, 0) = 1"
    by (simp add: sample_set_points ellipsoid_equation power2_eq_square)
  show "least_squares (map design_row planar_samples) (replicate (length planar_samples) 1) (1, 1, 0, 0, 0, 0)"
    by (rule exact_fit_is_least_squares[OF exact])
  show "assemble_M (1, 1, 0, 0, 0, 0) = diag3 (1, 1, 0)"
    by (simp add: assemble_M_def diag3_def)
  show "eigh_spec (diag3 (1, 1, 0)) (0, 1, 1) ((0, 1, 0), (0, 0, 1), (1, 0, 0))"
    by (simp add: eigh_spec_def transpose3_def identity3_def diag3_def matmul3_def vecmat3_def dot3_def)
  fix u assume "least_squares (map design_row planar_samples) (replicate (length planar_samples) 1) u"
  from least_squares_exact[OF exact this]
  have on: "\<forall>p\<in>set planar_samples. dot6 (design_row p) u = 1" .
  obtain A B C D E F where u: "u = (A, B, C, D, E, F)" by (cases u) auto
  from on have AB: "A = 1" "B = 1"
    by (simp_all add: sample_set_points u ellipsoid_equation)
  have "0 \<le> C * C + D * D + E * E + F * F" by simp
  then show "dot6 (1, 1, 0, 0, 0, 0) (1, 1, 0, 0, 0, 0) \<le> dot6 u u"
    by (simp add: u AB dot6_def)
qed

text \<open>
  On the hyperboloid sample set the design matrix has full column rank, so
  \<open>(1, 1, -1, 0, 0, 0)\<close> is the only least-squares solution; its matrix \<open>diag(1, 1, -1)\<close>
  has the eigenvalues \<open>-1, 1, 1\<close>.
\<close>

lemma hyperboloid_fit:
  "(\<forall>v. least_squares (map design_row hyperboloid_samples) (replicate (length hyperboloid_samples) 1) v
      \<longleftrightarrow> v = (1, 1, - 1, 0, 0, 0)) \<and>
   assemble_M (1, 1, - 1, 0, 0, 0) = diag3 (1, 1, - 1) \<and>
   eigh_spec (diag3 (1, 1, - 1)) (- 1, 1, 1) ((0, 1, 0), (0, 0, 1), (1, 0, 0))"
proof (intro conjI allI iffI)
  have exact: "\<forall>p\<in>set hyperboloid_samples. dot6 (design_row p) (1, 1, - 1, 0, 0, 0) = 1"
    by (simp add: sample_set_points ellipsoid_equation power2_eq_square)
  show "v = (1, 1, - 1, 0, 0, 0)"
    if "least_squares (map design_row hyperboloid_samples) (replicate (length hyperboloid_samples) 1) v" for v
    by (rule least_squares_unique[OF exact hyperboloid_samples_rank that])
  show "least_squares (map design_row hyperboloid_samples) (replicate (length hyperboloid_samples) 1) v"
    if "v = (1, 1, - 1, 0, 0, 0)" for v
    unfolding that by (rule exact_fit_is_least_squares[OF exact])
  show "assemble_M (1, 1, - 1, 0, 0, 0) = diag3 (1, 1, - 1)"
    by (simp add: assemble_M_def diag3_def)
  show "eigh_spec (diag3 (1, 1, - 1)) (- 1, 1, 1) ((0, 1, 0), (0, 0, 1), (1, 0, 0))"
    by (simp add: eigh_spec_def transpose3_def identity3_def diag3_def matmul3_def vecmat3_def dot3_def)
qed

subsection \<open>The fitted transform\<close>

lemma calibration_result:
  assumes "50 \<le> length data"
    and "calculate_and_save_calibration lstsq eigh (Some data) = Inr (offset, T)"
    and "eigh (assemble_M (ellipsoid_fit lstsq (map (\<lambda>p. zip_vector3 (-) p offset) data))) = (w, Q)"
  shows "T = soft_iron w Q"
  using calibration_accepted[OF assms(1), of lstsq eigh] assms(2,3)
  by (simp add: Let_def)

text \<open>
  Claim C4. Take a sample set of at least 50 samples on which the fit returns \<open>(offset, T)\<close>,
  and let \<open>lstsq\<close> return the coefficients \<open>(A, B, C, D, E, F)\<close>, a least-squares solution
  for the design matrix of the centered samples, and \<open>eigh\<close> return \<open>(w, Q)\<close>, an
  eigendecomposition of the matrix \<open>M\<close> assembled from them. Then the coefficients minimise
  the sum of squares of \<open>Ax\<^sup>2 + By\<^sup>2 + Cz\<^sup>2 + 2Dxy + 2Exz + 2Fyz - 1\<close> over the centered
  samples, \<open>M = Q diag(w) Q\<^sup>T\<close> with \<open>Q\<^sup>T Q = I\<close>, the returned matrix is
  \<open>Q sqrt(diag(w)) Q\<^sup>T\<close>, and it is symmetric.
\<close>

theorem soft_iron_is_sqrt_of_fitted_ellipsoid:
  assumes "50 \<le> length data"
    and "calculate_and_save_calibration lstsq eigh (Some data) = Inr (offset, T)"
    and "centered = map (\<lambda>p. zip_vector3 (-) p offset) data"
    and "lstsq (map design_row centered) (replicate (length centered) 1) = (A, B, C, D, E, F)"
    and "least_squares (map design_row centered) (replicate (length centered) 1) (A, B, C, D, E, F)"
    and "eigh ((A, D, E), (D, B, F), (E, F, C)) = (w, Q)"
    and "eigh_spec ((A, D, E), (D, B, F), (E, F, C)) w Q"
  shows "(\<forall>A' B' C' D' E' F'.
       (\<Sum>(x, y, z) \<leftarrow> centered.
          (A * x\<^sup>2 + B * y\<^sup>2 + C * z\<^sup>2 + 2 * D * x * y + 2 * E * x * z + 2 * F * y * z - 1)\<^sup>2) \<le>
       (\<Sum>(x, y, z) \<leftarrow> centered.
          (A' * x\<^sup>2 + B' * y\<^sup>2 + C' * z\<^sup>2 + 2 * D' * x * y + 2 * E' * x * z + 2 * F' * y * z - 1)\<^sup>2)) \<and>
     matmul3 (matmul3 Q (diag3 w)) (transpose3 Q) = ((A, D, E), (D, B, F), (E, F, C)) \<and>
     matmul3 (transpose3 Q) Q = identity3 \<and>
     T = matmul3 (matmul3 (map_matrix3 Fin Q) (map_matrix3 np_sqrt (diag3 w)))
           (map_matrix3 Fin (transpose3 Q)) \<and>
     transpose3 T = T"
proof -
  have resid: "residual (map design_row centered) (replicate (length centered) 1) (a, b, c, d, e, f) =
      (\<Sum>(x, y, z) \<leftarrow> centered.
         (a * x\<^sup>2 + b * y\<^sup>2 + c * z\<^sup>2 + 2 * d * x * y + 2 * e * x * z + 2 * f * y * z - 1)\<^sup>2)"
    for a b c d e f
  proof -
    have "(\<lambda>p. (dot6 (design_row p) (a, b, c, d, e, f) - 1)\<^sup>2) =
        (\<lambda>(x, y, z). (a * x\<^sup>2 + b * y\<^sup>2 + c * z\<^sup>2 + 2 * d * x * y + 2 * e * x * z + 2 * f * y * z - 1)\<^sup>2)"
      by (rule ext) (simp add: ellipsoid_equation split: prod.splits)
    then show ?thesis by (simp add: residual_design)
  qed
  have fit: "ellipsoid_fit lstsq centered = (A, B, C, D, E, F)"
    using assms(4) by (simp add: ellipsoid_fit_def Let_def)
  have M: "assemble_M (A, B, C, D, E, F) = ((A, D, E), (D, B, F), (E, F, C))"
    by (simp add: assemble_M_def)
  have T: "T = soft_iron w Q"
    using calibration_result[OF assms(1,2)] assms(6) fit M unfolding assms(3)[symmetric] by simp
  have least: "\<forall>A' B' C' D' E' F'.
       (\<Sum>(x, y, z) \<leftarrow> centered.
          (A * x\<^sup>2 + B * y\<^sup>2 + C * z\<^sup>2 + 2 * D * x * y + 2 * E * x * z + 2 * F * y * z - 1)\<^sup>2) \<le>
       (\<Sum>(x, y, z) \<leftarrow> centered.
          (A' * x\<^sup>2 + B' * y\<^sup>2 + C' * z\<^sup>2 + 2 * D' * x * y + 2 * E' * x * z + 2 * F' * y * z - 1)\<^sup>2)"
    using assms(5) unfolding least_squares_def resid[symmetric] by blast
  have dec: "matmul3 (matmul3 Q (diag3 w)) (transpose3 Q) = ((A, D, E), (D, B, F), (E, F, C))"
    and orth: "matmul3 (transpose3 Q) Q = identity3"
    using assms(7) by (simp_all add: eigh_spec_def)
  have form: "T = matmul3 (matmul3 (map_matrix3 Fin Q) (map_matrix3 np_sqrt (diag3 w)))
           (map_matrix3 Fin (transpose3 Q))"
    by (simp add: T soft_iron_def)
  have sym: "transpose3 T = T"
    by (simp add: T soft_iron_symmetric)
  from least dec orth form sym show ?thesis by blast
qed

text \<open>
  The sphere sample set, with the values the library functions return on it.
\<close>

theorem soft_iron_is_sqrt_of_fitted_ellipsoid_witness:
  "50 \<le> length sphere_samples \<and>
   calculate_and_save_calibration (\<lambda>D b. (1, 1, 1, 0, 0, 0)) (\<lambda>M. ((1, 1, 1), identity3))
     (Some sphere_samples) = Inr ((0, 0, 0), identity3) \<and>
   least_squares (map design_row sphere_samples) (replicate (length sphere_samples) 1) (1, 1, 1, 0, 0, 0) \<and>
   eigh_spec ((1, 0, 0), (0, 1, 0), (0, 0, 1)) (1, 1, 1) identity3 \<and>
   (identity3 :: npfloat matrix3) =
     matmul3 (matmul3 (map_matrix3 Fin identity3) (map_matrix3 np_sqrt (diag3 (1, 1, 1))))
       (map_matrix3 Fin (transpose3 identity3)) \<and>
   transpose3 (identity3 :: npfloat matrix3) = identity3"
proof -
  let ?lstsq = "\<lambda>(D :: vec6 list) (b :: real list). (1, 1, 1, 0, 0, 0) :: vec6"
  let ?eigh = "\<lambda>M :: mat3. ((1, 1, 1) :: vec3, identity3 :: mat3)"
  have len: "50 \<le> length sphere_samples"
    by (simp add: sample_set_lengths)
  have QQ: "matmul3 (identity3 :: mat3) (transpose3 identity3) = identity3"
    by (simp add: transpose3_def identity3_def diag3_def matmul3_def vecmat3_def dot3_def)
  have res: "calculate_and_save_calibration ?lstsq ?eigh (Some sphere_samples) = Inr ((0, 0, 0), identity3)"
    using calibration_accepted[OF len, of ?lstsq ?eigh]
    by (simp add: Let_def sample_set_values soft_iron_unit_eigenvalues[OF QQ])
  have cen: "sphere_samples = map (\<lambda>p. zip_vector3 (-) p (0, 0, 0)) sphere_samples"
    by simp
  have exact: "\<forall>p\<in>set sphere_samples. dot6 (design_row p) (1, 1, 1, 0, 0, 0) = 1"
    by (simp add: sample_set_points ellipsoid_equation power2_eq_square)
  have fit: "?lstsq (map design_row sphere_samples) (replicate (length sphere_samples) 1) = (1, 1, 1, 0, 0, 0)"
    by simp
  have least: "least_squares (map design_row sphere_samples) (replicate (length sphere_samples) 1) (1, 1, 1, 0, 0, 0)"
    by (rule exact_fit_is_least_squares[OF exact])
  have eig: "?eigh ((1, 0, 0), (0, 1, 0), (0, 0, 1)) = ((1, 1, 1), identity3)"
    by simp
  have spec: "eigh_spec ((1, 0, 0), (0, 1, 0), (0, 0, 1)) (1, 1, 1) identity3"
    by (simp add: eigh_spec_def transpose3_def identity3_def diag3_def matmul3_def vecmat3_def dot3_def)
  from soft_iron_is_sqrt_of_fitted_ellipsoid[OF len res cen fit least eig spec]
  show ?thesis
    using len res least spec by blast
qed

subsection \<open>Degenerate fits\<close>

text \<open>
  Claim C1 as stated fails on the hyperboloid sample set. With the least-squares solution
  and the eigendecomposition of its matrix, which has the eigenvalue \<open>-1\<close>, the fit returns
  an offset and a matrix of NaNs instead of failing.
\<close>

theorem negative_eigenvalue_counterexample:
  "least_squares (map design_row hyperboloid_samples) (replicate (length hyperboloid_samples) 1)
     (1, 1, - 1, 0, 0, 0) \<and>
   eigh_spec (assemble_M (1, 1, - 1, 0, 0, 0)) (- 1, 1, 1) ((0, 1, 0), (0, 0, 1), (1, 0, 0)) \<and>
   calculate_and_save_calibration (\<lambda>D b. (1, 1, - 1, 0, 0, 0))
     (\<lambda>M. ((- 1, 1, 1), ((0, 1, 0), (0, 0, 1), (1, 0, 0)))) (Some hyperboloid_samples) =
   Inr ((0, 0, 0), ((NaN, NaN, NaN), (NaN, NaN, NaN), (NaN, NaN, NaN)))"
proof -
  have "50 \<le> length hyperboloid_samples"
    by (simp add: sample_set_lengths)
  from calibration_accepted[OF this]
  have "calculate_and_save_calibration (\<lambda>D b. (1, 1, - 1, 0, 0, 0))
     (\<lambda>M. ((- 1, 1, 1), ((0, 1, 0), (0, 0, 1), (1, 0, 0)))) (Some hyperboloid_samples) =
   Inr ((0, 0, 0), ((NaN, NaN, NaN), (NaN, NaN, NaN), (NaN, NaN, NaN)))"
    by (simp add: Let_def sample_set_values soft_iron_negative_eigenvalue)
  with hyperboloid_fit show ?thesis
    by simp
qed

text \<open>
  Claim C1, amended. The fit has no check on the eigenvalues: for every sample set of at least
  50 samples it returns an offset and a matrix. \<open>np.sqrt\<close> is applied to every eigenvalue
  as it is: when an eigenvalue is negative every entry of the returned matrix is NaN, and
  when none is (zero included) the matrix is the finite \<open>Q sqrt(diag(w)) Q\<^sup>T\<close>.
\<close>

theorem calibration_never_reports_degenerate_fit:
  assumes "50 \<le> length data"
  shows "\<exists>offset w1 w2 w3 Q T.
     calculate_and_save_calibration lstsq eigh (Some data) = Inr (offset, T) \<and>
     eigh (assemble_M (ellipsoid_fit lstsq (map (\<lambda>p. zip_vector3 (-) p offset) data))) =
       ((w1, w2, w3), Q) \<and>
     (w1 < 0 \<or> w2 < 0 \<or> w3 < 0 \<longrightarrow>
        T = ((NaN, NaN, NaN), (NaN, NaN, NaN), (NaN, NaN, NaN))) \<and>
     (0 \<le> w1 \<and> 0 \<le> w2 \<and> 0 \<le> w3 \<longrightarrow>
        T = map_matrix3 Fin
              (matmul3 (matmul3 Q (diag3 (sqrt w1, sqrt w2, sqrt w3))) (transpose3 Q)))"
proof -
  obtain offset T where res: "calculate_and_save_calibration lstsq eigh (Some data) = Inr (offset, T)"
    using calibration_accepted[OF assms, of lstsq eigh] unfolding Let_def by blast
  obtain w1 w2 w3 Q where eig:
    "eigh (assemble_M (ellipsoid_fit lstsq (map (\<lambda>p. zip_vector3 (-) p offset) data))) = ((w1, w2, w3), Q)"
    by (metis prod.exhaust)
  have T: "T = soft_iron (w1, w2, w3) Q"
    by (rule calibration_result[OF assms res eig])
  have "w1 < 0 \<or> w2 < 0 \<or> w3 < 0 \<longrightarrow> T = ((NaN, NaN, NaN), (NaN, NaN, NaN), (NaN, NaN, NaN))"
    unfolding T using soft_iron_negative_eigenvalue by blast
  moreover have "0 \<le> w1 \<and> 0 \<le> w2 \<and> 0 \<le> w3 \<longrightarrow>
      T = map_matrix3 Fin (matmul3 (matmul3 Q (diag3 (sqrt w1, sqrt w2, sqrt w3))) (transpose3 Q))"
    unfolding T using soft_iron_nonnegative_eigenvalues by blast
  ultimately show ?thesis
    using res eig by blast
qed

text \<open>
  The planar sample set is accepted: the fit returns the singular matrix \<open>diag(1, 1, 0)\<close>.
\<close>

theorem calibration_never_reports_degenerate_fit_witness:
  "50 \<le> length planar_samples \<and>
   (\<exists>offset. calculate_and_save_calibration (\<lambda>D b. (1, 1, 0, 0, 0, 0))
      (\<lambda>M. ((0, 1, 1), ((0, 1, 0), (0, 0, 1), (1, 0, 0)))) (Some planar_samples) =
    Inr (offset, ((Fin 1, Fin 0, Fin 0), (Fin 0, Fin 1, Fin 0), (Fin 0, Fin 0, Fin 0))))"
proof -
  let ?lstsq = "\<lambda>(D :: vec6 list) (b :: real list). (1, 1, 0, 0, 0, 0) :: vec6"
  let ?eigh = "\<lambda>M :: mat3. ((0, 1, 1) :: vec3, ((0, 1, 0), (0, 0, 1), (1, 0, 0)) :: mat3)"
  have len: "50 \<le> length planar_samples"
    by (simp add: sample_set_lengths)
  from calibration_never_reports_degenerate_fit[OF len, of ?lstsq ?eigh]
  obtain offset w1 w2 w3 Q T
    where res: "calculate_and_save_calibration ?lstsq ?eigh (Some planar_samples) = Inr (offset, T)"
      and eig: "((0, 1, 1), ((0, 1, 0), (0, 0, 1), (1, 0, 0))) = ((w1, w2, w3), Q)"
      and fin: "0 \<le> w1 \<and> 0 \<le> w2 \<and> 0 \<le> w3 \<longrightarrow>
        T = map_matrix3 Fin (matmul3 (matmul3 Q (diag3 (sqrt w1, sqrt w2, sqrt w3))) (transpose3 Q))"
    by blast
  from eig have w: "w1 = 0" "w2 = 1" "w3 = 1" and Q: "Q = ((0, 1, 0), (0, 0, 1), (1, 0, 0))"
    by simp_all
  from fin have "T = ((Fin 1, Fin 0, Fin 0), (Fin 0, Fin 1, Fin 0), (Fin 0, Fin 0, Fin 0))"
    by (simp add: w Q matmul3_def vecmat3_def dot3_def transpose3_def diag3_def map_matrix3_def
        map_vector3_def)
  with res len show ?thesis by blast
qed

subsection \<open>Round trip on the unit sphere\<close>

text \<open>
  Claim C6. Take at least 50 samples on the unit sphere whose minimum and maximum are opposite
  on each axis, and on which no quadratic form \<open>Ax\<^sup>2 + ... + 2Fyz\<close> other than zero
  vanishes (the design matrix has full column rank). If \<open>lstsq\<close> returns a least-squares solution for the design
  matrix and \<open>eigh\<close> an eigendecomposition of the identity matrix, the fit returns the offset
  0 and the identity matrix. In exact arithmetic the recovery is exact.
\<close>

theorem unit_sphere_round_trip:
  assumes "50 \<le> length data"
    and sphere: "\<forall>(x, y, z)\<in>set data. x\<^sup>2 + y\<^sup>2 + z\<^sup>2 = 1"
    and sym: "Min ((\<lambda>(x, y, z). x) ` set data) = - Max ((\<lambda>(x, y, z). x) ` set data)"
        "Min ((\<lambda>(x, y, z). y) ` set data) = - Max ((\<lambda>(x, y, z). y) ` set data)"
        "Min ((\<lambda>(x, y, z). z) ` set data) = - Max ((\<lambda>(x, y, z). z) ` set data)"
    and rank: "\<forall>u. (\<forall>p\<in>set data. dot6 (design_row p) u = 0) \<longrightarrow> u = (0, 0, 0, 0, 0, 0)"
    and lstsq: "least_squares (map design_row data) (replicate (length data) 1)
        (lstsq (map design_row data) (replicate (length data) 1))"
    and eigh: "eigh_spec identity3 (fst (eigh identity3)) (snd (eigh identity3))"
  shows "calculate_and_save_calibration lstsq eigh (Some data) = Inr ((0, 0, 0), identity3)"
proof -
  have cols: "set (column0 data) = (\<lambda>(x, y, z). x) ` set data"
      "set (column1 data) = (\<lambda>(x, y, z). y) ` set data"
      "set (column2 data) = (\<lambda>(x, y, z). z) ` set data"
    by (simp_all add: column0_def column1_def column2_def)
  have exact: "\<forall>p\<in>set data. dot6 (design_row p) (1, 1, 1, 0, 0, 0) = 1"
    using sphere by (auto simp: ellipsoid_equation)
  have fit: "ellipsoid_fit lstsq data = (1, 1, 1, 0, 0, 0)"
    unfolding ellipsoid_fit_def Let_def by (rule least_squares_unique[OF exact rank lstsq])
  have M: "assemble_M (1, 1, 1, 0, 0, 0) = identity3"
    by (simp add: assemble_M_def identity3_def diag3_def)
  have w: "fst (eigh identity3) = (1, 1, 1)"
    by (rule identity_eigenvalues[OF eigh])
  have Q: "matmul3 (snd (eigh identity3)) (transpose3 (snd (eigh identity3))) = identity3"
    using eigh by (simp add: eigh_spec_def)
  show ?thesis
    using calibration_accepted[OF assms(1), of lstsq eigh]
    by (simp add: Let_def cols sym fit M w soft_iron_unit_eigenvalues[OF Q])
qed

theorem unit_sphere_round_trip_witness:
  "50 \<le> length sphere_samples \<and>
   list_all (\<lambda>(x, y, z). x\<^sup>2 + y\<^sup>2 + z\<^sup>2 = 1) sphere_samples \<and>
   Min ((\<lambda>(x, y, z). x) ` set sphere_samples) = - Max ((\<lambda>(x, y, z). x) ` set sphere_samples) \<and>
   Min ((\<lambda>(x, y, z). y) ` set sphere_samples) = - Max ((\<lambda>(x, y, z). y) ` set sphere_samples) \<and>
   Min ((\<lambda>(x, y, z). z) ` set sphere_samples) = - Max ((\<lambda>(x, y, z). z) ` set sphere_samples) \<and>
   least_squares (map design_row sphere_samples) (replicate (length sphere_samples) 1) (1, 1, 1, 0, 0, 0) \<and>
   eigh_spec identity3 (1, 1, 1) identity3 \<and>
   calculate_and_save_calibration (\<lambda>D b. (1, 1, 1, 0, 0, 0)) (\<lambda>M. ((1, 1, 1), identity3))
     (Some sphere_samples) = Inr ((0, 0, 0), identity3)"
proof -
  let ?lstsq = "\<lambda>(D :: vec6 list) (b :: real list). (1, 1, 1, 0, 0, 0) :: vec6"
  let ?eigh = "\<lambda>M :: mat3. ((1, 1, 1) :: vec3, identity3 :: mat3)"
  have len: "50 \<le> length sphere_samples"
    by (simp add: sample_set_lengths)
  have sphere: "\<forall>(x, y, z)\<in>set sphere_samples. x\<^sup>2 + y\<^sup>2 + z\<^sup>2 = 1"
    unfolding sample_set_points by (simp add: power2_eq_square)
  have cols: "(\<lambda>(x, y, z). x) ` set sphere_samples = set (column0 sphere_samples)"
      "(\<lambda>(x, y, z). y) ` set sphere_samples = set (column1 sphere_samples)"
      "(\<lambda>(x, y, z). z) ` set sphere_samples = set (column2 sphere_samples)"
    by (simp_all add: column0_def column1_def column2_def)
  have sym: "Min ((\<lambda>(x, y, z). x) ` set sphere_samples) = - Max ((\<lambda>(x, y, z). x) ` set sphere_samples)"
      "Min ((\<lambda>(x, y, z). y) ` set sphere_samples) = - Max ((\<lambda>(x, y, z). y) ` set sphere_samples)"
      "Min ((\<lambda>(x, y, z). z) ` set sphere_samples) = - Max ((\<lambda>(x, y, z). z) ` set sphere_samples)"
    unfolding cols sample_set_values by simp_all
  have exact: "\<forall>p\<in>set sphere_samples. dot6 (design_row p) (1, 1, 1, 0, 0, 0) = 1"
    using sphere by (auto simp: ellipsoid_equation)
  have lstsq: "least_squares (map design_row sphere_samples) (replicate (length sphere_samples) 1)
      (?lstsq (map design_row sphere_samples) (replicate (length sphere_samples) 1))"
    using exact_fit_is_least_squares[OF exact] by simp
  have eigh: "eigh_spec identity3 (fst (?eigh identity3)) (snd (?eigh identity3))"
    by (simp add: eigh_spec_def transpose3_def identity3_def diag3_def matmul3_def vecmat3_def dot3_def)
  from unit_sphere_round_trip[of sphere_samples ?lstsq ?eigh, OF len sphere sym sphere_samples_rank lstsq eigh]
  show ?thesis
    using len sphere sym lstsq eigh by (simp add: list_all_iff)
qed

subsection \<open>Live tracking\<close>

lemma apply_calibration_components:
  "apply_calibration (r1, r2, r3) (o1, o2, o3)
     ((t11, t12, t13), (t21, t22, t23), (t31, t32, t33)) =
   (Fin (r1 - o1) * t11 + Fin (r2 - o2) * t21 + Fin (r3 - o3) * t31,
    Fin (r1 - o1) * t12 + Fin (r2 - o2) * t22 + Fin (r3 - o3) * t32,
    Fin (r1 - o1) * t13 + Fin (r2 - o2) * t23 + Fin (r3 - o3) * t33)"
  by (simp add: apply_calibration_def vecmat3_def dot3_def transpose3_def map_vector3_def
      zip_vector3_def)

lemma capture_reference_eq:
  "capture_reference offset matrix ls =
     map (\<lambda>raw. apply_calibration raw offset matrix) (raw_readings ls)"
  by (induction ls) (simp_all add: raw_readings_def split: sum.splits option.splits)

lemma track_eq:
  "track offset matrix baseline ls =
     (map (\<lambda>raw. zip_vector3 (-) (apply_calibration raw offset matrix) baseline)
        (raw_readings (processed_lines ls)),
      (case dropWhile (\<lambda>l. \<not> isl (read_reading l)) ls of
         [] \<Rightarrow> None
       | l # _ \<Rightarrow> (case read_reading l of Inl e \<Rightarrow> Some e | Inr _ \<Rightarrow> None)))"
  by (induction ls)
     (auto simp: raw_readings_def processed_lines_def Let_def split: sum.splits option.splits prod.splits)

text \<open>
  Claim C8. When the demo gets past the reference capture, the reference readings are not
  empty, and the field delta of every raw reading the tracking loop processes is the
  calibrated reading \<open>(raw - offset) @ matrix\<close> (a row vector times the matrix) minus the
  baseline, the componentwise mean of the calibrated reference readings.
\<close>

theorem field_delta_is_calibrated_minus_baseline:
  assumes "live_tracking_demo offset matrix reference_lines tracking_lines = Inr (deltas, ending)"
  shows "case (offset, matrix) of
      ((o1, o2, o3), ((t11, t12, t13), (t21, t22, t23), (t31, t32, t33))) \<Rightarrow>
        let calibrate = (\<lambda>(r1, r2, r3).
              (Fin (r1 - o1) * t11 + Fin (r2 - o2) * t21 + Fin (r3 - o3) * t31,
               Fin (r1 - o1) * t12 + Fin (r2 - o2) * t22 + Fin (r3 - o3) * t32,
               Fin (r1 - o1) * t13 + Fin (r2 - o2) * t23 + Fin (r3 - o3) * t33));
            refs = map calibrate (raw_readings reference_lines);
            n = Fin (real (length refs));
            baseline = ((\<Sum>(c1, c2, c3) \<leftarrow> refs. c1) / n,
                        (\<Sum>(c1, c2, c3) \<leftarrow> refs. c2) / n,
                        (\<Sum>(c1, c2, c3) \<leftarrow> refs. c3) / n)
        in refs \<noteq> [] \<and>
           deltas =
             map (\<lambda>raw. case (calibrate raw, baseline) of
                    ((c1, c2, c3), (b1, b2, b3)) \<Rightarrow> (c1 - b1, c2 - b2, c3 - b3))
               (raw_readings (processed_lines tracking_lines))"
proof -
  obtain o1 o2 o3 where off: "offset = (o1, o2, o3)"
    by (cases offset) auto
  obtain t11 t12 t13 t21 t22 t23 t31 t32 t33
    where mat: "matrix = ((t11, t12, t13), (t21, t22, t23), (t31, t32, t33))"
    by (cases matrix) auto
  define calibrate where "calibrate = (\<lambda>(r1, r2, r3).
      (Fin (r1 - o1) * t11 + Fin (r2 - o2) * t21 + Fin (r3 - o3) * t31,
       Fin (r1 - o1) * t12 + Fin (r2 - o2) * t22 + Fin (r3 - o3) * t32,
       Fin (r1 - o1) * t13 + Fin (r2 - o2) * t23 + Fin (r3 - o3) * t33))"
  have cal: "(\<lambda>raw. apply_calibration raw offset matrix) = calibrate"
    by (rule ext) (auto simp: calibrate_def off mat apply_calibration_components)
  define refs where "refs = map calibrate (raw_readings reference_lines)"
  have cap: "capture_reference offset matrix reference_lines = refs"
    by (simp add: capture_reference_eq cal refs_def)
  from assms have ne: "refs \<noteq> []"
    and tr: "track offset matrix (np_mean_axis0 refs) tracking_lines = (deltas, ending)"
    by (auto simp: live_tracking_demo_def Let_def cap split: if_splits)
  have sub: "zip_vector3 (-) c b = (case (c, b) of ((c1, c2, c3), (b1, b2, b3)) \<Rightarrow> (c1 - b1, c2 - b2, c3 - b3))"
    for c b :: "npfloat vector3"
    by (simp add: zip_vector3_def)
  have "deltas = map (\<lambda>raw. case (calibrate raw, np_mean_axis0 refs) of
        ((c1, c2, c3), (b1, b2, b3)) \<Rightarrow> (c1 - b1, c2 - b2, c3 - b3))
      (raw_readings (processed_lines tracking_lines))"
    using tr by (simp add: track_eq cal[THEN fun_cong] sub)
  then have "deltas = map (\<lambda>raw. case (calibrate raw,
          ((\<Sum>(c1, c2, c3) \<leftarrow> refs. c1) / Fin (real (length refs)),
           (\<Sum>(c1, c2, c3) \<leftarrow> refs. c2) / Fin (real (length refs)),
           (\<Sum>(c1, c2, c3) \<leftarrow> refs. c3) / Fin (real (length refs)))) of
        ((c1, c2, c3), (b1, b2, b3)) \<Rightarrow> (c1 - b1, c2 - b2, c3 - b3))
      (raw_readings (processed_lines tracking_lines))"
    by (simp only: np_mean_axis0_def Let_def)
  with ne show ?thesis
    unfolding off mat prod.case Let_def calibrate_def[symmetric] refs_def[symmetric]
    by (rule conjI)
qed

theorem field_delta_is_calibrated_minus_baseline_witness:
  "live_tracking_demo (1, 1, 1) ((Fin 1, Fin 1, Fin 0), (Fin 0, Fin 1, Fin 0), (Fin 0, Fin 0, Fin 1))
     [Fields [Some 2, Some 1, Some 1], Blank, Fields [Some 9, None, Some 9], Undecodable,
      Fields [Some 4, Some 1, Some 1], Fields [Some 1, Some 2]]
     [Fields [Some 1, Some 2, Some 4], Blank, Fields [Some 0, None, Some 0],
      Fields [Some 5, Some 5, Some 5]] =
     Inr ([(Fin (- 2), Fin (- 1), Fin 3)], Some ValueError) \<and>
   raw_readings [Fields [Some 2, Some 1, Some 1], Blank, Fields [Some 9, None, Some 9], Undecodable,
      Fields [Some 4, Some 1, Some 1], Fields [Some 1, Some 2]] = [(2, 1, 1), (4, 1, 1)] \<and>
   raw_readings (processed_lines [Fields [Some 1, Some 2, Some 4], Blank, Fields [Some 0, None, Some 0],
      Fields [Some 5, Some 5, Some 5]]) = [(1, 2, 4)]"
proof -
  let ?R = "[Fields [Some 2, Some 1, Some 1], Blank, Fields [Some 9, None, Some 9], Undecodable,
      Fields [Some 4, Some 1, Some 1], Fields [Some 1, Some 2]]"
  let ?T = "[Fields [Some 1, Some 2, Some 4], Blank, Fields [Some 0, None, Some 0],
      Fields [Some 5, Some 5, Some 5]]"
  let ?M = "((Fin 1, Fin 1, Fin 0), (Fin 0, Fin 1, Fin 0), (Fin 0, Fin 0, Fin 1))"
  have refs: "raw_readings ?R = [(2, 1, 1), (4, 1, 1)]"
    by (simp add: raw_readings_def read_reading_def)
  have trk: "raw_readings (processed_lines ?T) = [(1, 2, 4)]"
    by (simp add: raw_readings_def processed_lines_def read_reading_def)
  have run: "live_tracking_demo (1, 1, 1) ?M ?R ?T = Inr ([(Fin (- 2), Fin (- 1), Fin 3)], Some ValueError)"
    by (simp add: live_tracking_demo_def Let_def read_reading_def np_mean_axis0_def
        apply_calibration_components zip_vector3_def)
  from field_delta_is_calibrated_minus_baseline[OF run] refs trk run show ?thesis
    by simp
qed

subsection \<open>Feature windows\<close>

lemma py_range_up_multiples:
  "0 < w \<Longrightarrow> stop \<le> int (a + m) * int w \<Longrightarrow> (\<forall>k < a + m. int k * int w < stop) \<Longrightarrow>
   py_range_up (int a * int w) stop (int w) = map (\<lambda>k. int k * int w) [a..<a + m]"
proof (induction m arbitrary: a)
  case 0
  then show ?case by (subst py_range_up.simps) simp
next
  case (Suc m)
  have lt: "int a * int w < stop"
    using Suc.prems(3) by simp
  have next_start: "int a * int w + int w = int (Suc a) * int w"
    by (simp add: algebra_simps)
  have ih: "py_range_up (int (Suc a) * int w) stop (int w) = map (\<lambda>k. int k * int w) [Suc a..<Suc a + m]"
  proof (rule Suc.IH)
    show "0 < w" by fact
    show "stop \<le> int (Suc a + m) * int w" using Suc.prems(2) by simp
    show "\<forall>k<Suc a + m. int k * int w < stop" using Suc.prems(3) by simp
  qed
  have "py_range_up (int a * int w) stop (int w) =
      int a * int w # py_range_up (int (Suc a) * int w) stop (int w)"
    using lt Suc.prems(1) by (subst py_range_up.simps) (simp only: next_start of_nat_0_less_iff simp_thms if_True)
  also have "\<dots> = map (\<lambda>k. int k * int w) [a..<a + Suc m]"
    by (simp only: ih) (simp add: upt_conv_Cons)
  finally show ?case .
qed

lemma window_count_bounds:
  fixes n w :: nat
  assumes "0 < w" "0 < n"
  shows "((n - 1) div w) * w < n" "n \<le> ((n - 1) div w) * w + w"
proof -
  define m where "m = (n - 1) div w"
  define r where "r = (n - 1) mod w"
  have eq: "m * w + r = n - 1"
    unfolding m_def r_def by simp
  have r: "r < w"
    unfolding r_def using assms(1) by simp
  show "((n - 1) div w) * w < n"
    using eq assms(2) unfolding m_def[symmetric] by linarith
  show "n \<le> ((n - 1) div w) * w + w"
    using eq r assms(2) unfolding m_def[symmetric] by linarith
qed

lemma window_starts_eq:
  fixes w :: nat
  assumes "0 < w" "t \<noteq> []"
  shows "window_starts (int w) t = Inr (map (\<lambda>k. int k * int w) [0..<(length t - 1) div w])"
proof -
  define n where "n = length t"
  define m where "m = (n - 1) div w"
  have n: "0 < n" using assms(2) by (simp add: n_def)
  have lo: "m * w < n" and hi: "n \<le> m * w + w"
    using window_count_bounds[OF assms(1) n] by (simp_all add: m_def)
  have a: "int n - int w \<le> int (0 + m) * int w"
  proof -
    have "int n \<le> int (m * w + w)" using hi by (simp only: of_nat_le_iff)
    then show ?thesis by simp
  qed
  have b: "\<forall>k<0 + m. int k * int w < int n - int w"
  proof (intro allI impI)
    fix k assume "k < 0 + m"
    then have "Suc k \<le> m" by simp
    then have "Suc k * w \<le> m * w" by (rule mult_le_mono1)
    with lo have "k * w + w < n" by simp
    then have "int (k * w + w) < int n" by (simp only: of_nat_less_iff)
    then show "int k * int w < int n - int w" by simp
  qed
  have "py_range_up (int 0 * int w) (int n - int w) (int w) = map (\<lambda>k. int k * int w) [0..<0 + m]"
    by (rule py_range_up_multiples[OF assms(1) a b])
  then show ?thesis
    using assms(1) by (simp add: window_starts_def py_range_def n_def m_def)
qed

lemma py_slice_block:
  assumes "a + w \<le> length xs"
  shows "py_slice xs (int a) (int a + int w) = map (\<lambda>j. xs ! j) [a..<a + w]"
proof -
  have i: "slice_bound (length xs) (int a) = a"
    using assms by (simp add: slice_bound_def)
  have "int a + int w = int (a + w)" by simp
  then have j: "slice_bound (length xs) (int a + int w) = a + w"
    using assms by (simp add: slice_bound_def del: of_nat_add)
  have "py_slice xs (int a) (int a + int w) = take w (drop a xs)"
    by (simp add: py_slice_def i j)
  also have "\<dots> = map (\<lambda>j. xs ! j) [a..<a + w]"
    using assms by (intro nth_equalityI) simp_all
  finally show ?thesis .
qed

lemma feature_windows_eq:
  fixes w :: nat
  assumes "0 < w" "t \<noteq> []" "length noisy_B = length t"
  shows "feature_windows (int w) t noisy_B =
    Inr (map (\<lambda>k. map (\<lambda>j. noisy_B ! j) [k * w..<k * w + w]) [0..<(length t - 1) div w])"
proof -
  define m where "m = (length t - 1) div w"
  have n: "0 < length t" using assms(2) by simp
  have lo: "m * w < length t"
    using window_count_bounds(1)[OF assms(1) n] by (simp add: m_def)
  have block: "py_slice noisy_B (int k * int w) (int k * int w + int w) =
      map (\<lambda>j. noisy_B ! j) [k * w..<k * w + w]" if "k < m" for k
  proof -
    from that have "Suc k \<le> m" by simp
    then have "Suc k * w \<le> m * w" by (rule mult_le_mono1)
    with lo assms(3) have "k * w + w \<le> length noisy_B" by simp
    from py_slice_block[OF this] show ?thesis by simp
  qed
  have "map (\<lambda>i. py_slice noisy_B i (i + int w)) (map (\<lambda>k. int k * int w) [0..<m]) =
      map (\<lambda>k. map (\<lambda>j. noisy_B ! j) [k * w..<k * w + w]) [0..<m]"
    by (simp add: block)
  then show ?thesis
    by (simp add: feature_windows_def window_starts_eq[OF assms(1,2)] m_def)
qed

lemma covered_indices:
  fixes w :: nat
  assumes "0 < w"
  shows "(\<exists>k<m. k * w \<le> j \<and> j < k * w + w) \<longleftrightarrow> j < m * w"
proof
  assume "\<exists>k<m. k * w \<le> j \<and> j < k * w + w"
  then obtain k where k: "k < m" "j < k * w + w" by blast
  from k(1) have "Suc k \<le> m" by simp
  then have "Suc k * w \<le> m * w" by (rule mult_le_mono1)
  with k(2) show "j < m * w" by simp
next
  assume j: "j < m * w"
  have "j div w < m"
    using j assms by (simp add: div_less_iff_less_mult)
  moreover have "j div w * w \<le> j" by simp
  moreover have "j < j div w * w + w"
    using assms by (metis add.commute dividend_less_div_times mult.commute)
  ultimately show "\<exists>k<m. k * w \<le> j \<and> j < k * w + w" by blast
qed

lemma trailing_when_dvd:
  fixes n w m :: nat
  assumes "0 < w" "m * w < n" "n \<le> m * w + w" "w dvd n"
  shows "n - m * w = w"
proof -
  from assms(4) obtain q where q: "n = q * w" by (auto simp: dvd_def mult.commute)
  have "m < q" using assms(2) q by simp
  moreover have "q * w \<le> Suc m * w" using assms(3) q by simp
  then have "q \<le> Suc m" using assms(1) by (simp only: mult_le_cancel2)
  ultimately have "q = Suc m" by simp
  then show ?thesis using q by simp
qed

text \<open>
  Claim C10. For a time series of \<open>n > 0\<close> samples and a window size \<open>w > 0\<close>, the loop
  visits the start indices \<open>0, w, 2w, ...\<close> strictly below \<open>n - w\<close>; with \<open>m\<close> such
  windows, window \<open>k\<close> holds the samples \<open>k*w .. k*w + w - 1\<close>, so exactly the samples
  below \<open>m*w\<close> are in some window. The trailing \<open>n - m*w\<close> samples are in none: there is
  at least one of them, at most \<open>w\<close>, and exactly \<open>w\<close> when \<open>w\<close> divides \<open>n\<close>.
\<close>

theorem feature_windows_skip_trailing_samples:
  fixes w :: nat
  assumes "0 < w" and "t \<noteq> []" and "length noisy_B = length t"
  shows "let n = length t; m = (n - 1) div w; trailing = n - m * w in
    window_starts (int w) t = Inr (map (\<lambda>k. int k * int w) [0..<m]) \<and>
    (\<forall>k<m. int k * int w < int n - int w) \<and>
    feature_windows (int w) t noisy_B =
      Inr (map (\<lambda>k. map (\<lambda>j. noisy_B ! j) [k * w..<k * w + w]) [0..<m]) \<and>
    (\<forall>j. (\<exists>k<m. k * w \<le> j \<and> j < k * w + w) \<longleftrightarrow> j < n - trailing) \<and>
    1 \<le> trailing \<and> trailing \<le> w \<and> (w dvd n \<longrightarrow> trailing = w)"
proof -
  define n where "n = length t"
  define m where "m = (n - 1) div w"
  have n: "0 < n" using assms(2) by (simp add: n_def)
  have lo: "m * w < n" and hi: "n \<le> m * w + w"
    using window_count_bounds[OF assms(1) n] by (simp_all add: m_def)
  have starts: "window_starts (int w) t = Inr (map (\<lambda>k. int k * int w) [0..<m])"
    using window_starts_eq[OF assms(1,2)] by (simp add: m_def n_def)
  have below: "\<forall>k<m. int k * int w < int n - int w"
  proof (intro allI impI)
    fix k assume "k < m"
    then have "Suc k \<le> m" by simp
    then have "Suc k * w \<le> m * w" by (rule mult_le_mono1)
    with lo have "k * w + w < n" by simp
    then have "int (k * w + w) < int n" by (simp only: of_nat_less_iff)
    then show "int k * int w < int n - int w" by simp
  qed
  have wins: "feature_windows (int w) t noisy_B =
      Inr (map (\<lambda>k. map (\<lambda>j. noisy_B ! j) [k * w..<k * w + w]) [0..<m])"
    using feature_windows_eq[OF assms] by (simp add: m_def n_def)
  have cov: "\<forall>j. (\<exists>k<m. k * w \<le> j \<and> j < k * w + w) \<longleftrightarrow> j < n - (n - m * w)"
    using covered_indices[OF assms(1), of m] lo by simp
  have t1: "1 \<le> n - m * w" using lo by simp
  have t2: "n - m * w \<le> w" using hi by simp
  have t3: "w dvd n \<longrightarrow> n - m * w = w"
    using trailing_when_dvd[OF assms(1) lo hi] by blast
  show ?thesis
    unfolding Let_def n_def[symmetric] m_def[symmetric]
    using starts below wins cov t1 t2 t3 by blast
qed

text \<open>The script's own sizes: 750 samples, windows of 50; samples 700 to 749 are left out.\<close>

theorem feature_windows_skip_trailing_samples_witness:
  "replicate 750 (0::real) \<noteq> [] \<and>
   length (replicate 750 (1::real)) = length (replicate 750 (0::real)) \<and>
   window_starts window_size (replicate 750 (0::real)) =
     Inr [0, 50, 100, 150, 200, 250, 300, 350, 400, 450, 500, 550, 600, 650] \<and>
   length (replicate 750 (0::real)) - ((length (replicate 750 (0::real)) - 1) div 50) * 50 = 50"
  using feature_windows_skip_trailing_samples[of 50 "replicate 750 (0::real)" "replicate 750 (1::real)"]
  by (simp add: Let_def upt_conv_Cons window_size_def)

subsection \<open>Warm start\<close>

lemma estimate_positions_snoc:
  "estimate_positions minimize getB (bs @ [b]) =
     solve_step minimize getB (estimate_positions minimize getB bs) b"
  by (simp add: estimate_positions_def)

lemma estimate_positions_trace:
  "length (estimated_positions (estimate_positions minimize getB bs)) = length bs \<and>
   last_guess (estimate_positions minimize getB bs) =
     (if bs = [] then (0, 0, 1 / 100)
      else estimated_positions (estimate_positions minimize getB bs) ! (length bs - 1)) \<and>
   (\<forall>k<length bs.
      estimated_positions (estimate_positions minimize getB bs) ! k =
        res_x (minimize (\<lambda>pos. objective getB pos (bs ! k))
          (if k = 0 then (0, 0, 1 / 100)
           else estimated_positions (estimate_positions minimize getB bs) ! (k - 1)) 2000))"
proof (induction bs rule: rev_induct)
  case Nil
  show ?case by (simp add: estimate_positions_def initial_state_def)
next
  case (snoc b bs)
  define st where "st = estimate_positions minimize getB bs"
  define ests where "ests = estimated_positions st"
  define x' where "x' = res_x (minimize (\<lambda>pos. objective getB pos b) (last_guess st) 2000)"
  have len: "length ests = length bs"
    and seed: "last_guess st = (if bs = [] then (0, 0, 1 / 100) else ests ! (length bs - 1))"
    and old: "\<And>k. k < length bs \<Longrightarrow> ests ! k =
        res_x (minimize (\<lambda>pos. objective getB pos (bs ! k))
          (if k = 0 then (0, 0, 1 / 100) else ests ! (k - 1)) 2000)"
    using snoc.IH by (simp_all add: st_def ests_def)
  have run: "estimate_positions minimize getB (bs @ [b]) =
      \<lparr>estimated_positions = ests @ [x'], last_guess = x'\<rparr>"
    by (simp add: estimate_positions_snoc solve_step_def Let_def st_def ests_def x'_def)
  have step: "(ests @ [x']) ! k =
      res_x (minimize (\<lambda>pos. objective getB pos ((bs @ [b]) ! k))
        (if k = 0 then (0, 0, 1 / 100) else (ests @ [x']) ! (k - 1)) 2000)"
    if "k < length (bs @ [b])" for k
  proof (cases "k < length bs")
    case True
    then have "k - 1 < length bs" by simp
    then show ?thesis using old[OF True] len True by (simp add: nth_append)
  next
    case False
    with that have k: "k = length bs" by simp
    show ?thesis
      using seed len by (auto simp: k nth_append x'_def)
  qed
  show ?case
    unfolding run using len step by (simp add: nth_append)
qed

text \<open>
  Claim C3. The loop produces one estimate per measurement. Estimate \<open>k\<close> is the \<open>x\<close> of
  the minimiser's result on the objective for measurement \<open>k\<close>, started from the default
  guess \<open>(0, 0, 0.01)\<close> when \<open>k = 0\<close> and from estimate \<open>k - 1\<close> otherwise.
\<close>

theorem warm_start:
  "let ests = estimated_positions (estimate_positions minimize getB noisy_B) in
   length ests = length noisy_B \<and>
   (\<forall>k<length noisy_B.
      ests ! k =
        res_x (minimize (\<lambda>pos. objective getB pos (noisy_B ! k))
          (if k = 0 then (0, 0, 1 / 100) else ests ! (k - 1)) 2000))"
  using estimate_positions_trace[of minimize getB noisy_B] by (simp add: Let_def)

text \<open>
  With a stand-in minimiser that moves its start point by one along the first axis, the seeds
  chain from the default guess.
\<close>

theorem warm_start_witness:
  "estimated_positions
     (estimate_positions
        (\<lambda>f x0 maxiter. \<lparr>res_x = (case x0 of (a, b, c) \<Rightarrow> (a + 1, b, c)), success = True, nit = maxiter\<rparr>)
        (\<lambda>pos. pos) [(0, 0, 0), (1, 1, 1)]) = [(1, 0, 1 / 100), (2, 0, 1 / 100)]"
proof -
  let ?m = "\<lambda>(f :: vec3 \<Rightarrow> real) (x0 :: vec3) (maxiter :: nat).
      \<lparr>res_x = (case x0 of (a, b, c) \<Rightarrow> (a + 1, b, c)), success = True, nit = maxiter\<rparr>"
  define ests where "ests = estimated_positions (estimate_positions ?m (\<lambda>pos. pos) [(0, 0, 0), (1, 1, 1)])"
  have w: "length ests = 2 \<and> (\<forall>k<2. ests ! k =
      res_x (?m (\<lambda>pos. objective (\<lambda>pos. pos) pos ([(0, 0, 0), (1, 1, 1)] ! k))
        (if k = 0 then (0, 0, 1 / 100) else ests ! (k - 1)) 2000))"
    using warm_start[of ?m "\<lambda>pos. pos" "[(0, 0, 0), (1, 1, 1)]"]
    by (simp add: Let_def ests_def)
  from w have all: "\<And>k. k < 2 \<Longrightarrow> ests ! k =
      res_x (?m (\<lambda>pos. objective (\<lambda>pos. pos) pos ([(0, 0, 0), (1, 1, 1)] ! k))
        (if k = 0 then (0, 0, 1 / 100) else ests ! (k - 1)) 2000)"
    by blast
  have e0: "ests ! 0 = (1, 0, 1 / 100)"
    using all[of 0] by simp
  have e1: "ests ! 1 = (2, 0, 1 / 100)"
    using all[of 1] e0 by simp
  from w have "length ests = 2" by simp
  then have "ests = [ests ! 0, ests ! 1]"
    by (intro nth_equalityI) (auto simp: less_Suc_eq numeral_2_eq_2)
  then show ?thesis using e0 e1 by (simp add: ests_def)
qed

subsection \<open>Spectral power\<close>

lemma bool_mask_conv_filter:
  assumes "length freq = length psd"
  shows "bool_mask psd (map P freq) = map (\<lambda>i. psd ! i) (filter (\<lambda>i. P (freq ! i)) [0..<length psd])"
proof -
  have "zip psd (map P freq) = map (\<lambda>i. (psd ! i, P (freq ! i))) [0..<length psd]"
    using assms by (intro nth_equalityI) simp_all
  then show ?thesis
    by (simp add: bool_mask_def filter_map comp_def)
qed

lemma sum_list_bool_mask:
  fixes psd :: "real list"
  assumes "length freq = length psd"
  shows "sum_list (bool_mask psd (map P freq)) = (\<Sum>i | i < length psd \<and> P (freq ! i). psd ! i)"
proof -
  have "sum_list (bool_mask psd (map P freq)) =
      sum_list (map (\<lambda>i. psd ! i) (filter (\<lambda>i. P (freq ! i)) [0..<length psd]))"
    by (simp add: bool_mask_conv_filter[OF assms])
  also have "\<dots> = sum (\<lambda>i. psd ! i) (set (filter (\<lambda>i. P (freq ! i)) [0..<length psd]))"
    by (rule sum_list_distinct_conv_sum_set) simp
  also have "set (filter (\<lambda>i. P (freq ! i)) [0..<length psd]) = {i. i < length psd \<and> P (freq ! i)}"
    by auto
  finally show ?thesis .
qed

lemma spectral_power_band_sum:
  assumes "length (fst (welch (map fst window_B) 50 w)) = length (snd (welch (map fst window_B) 50 w))"
  shows "spectral_power welch w window_B =
    (case welch (map fst window_B) 50 w of
       (freq, psd) \<Rightarrow> (\<Sum>i | i < length psd \<and> 1 \<le> freq ! i \<and> freq ! i \<le> 2. psd ! i) * 10 ^ 12)"
proof (cases "welch (map fst window_B) 50 w")
  case (Pair freq psd)
  with assms have "length freq = length psd" by simp
  from sum_list_bool_mask[OF this, of "\<lambda>f. 1 \<le> f \<and> f \<le> 2"] Pair
  show ?thesis by (simp add: spectral_power_def Let_def)
qed

text \<open>
  Claim C9. For window size \<open>w\<close> (50 in the script, \<open>window_size\<close>), the feature of window
  \<open>k\<close> is computed from the first field axis of the \<open>w\<close> samples \<open>k*w .. k*w + w - 1\<close>:
  Welch's estimate with sampling frequency 50 and \<open>nperseg = w\<close>, summed over the bins whose
  frequency lies in \<open>[1, 2]\<close>, times \<open>10^12\<close>. The hypothesis on \<open>welch\<close> is that it
  returns as many frequencies as densities.
\<close>

theorem spectral_power_is_band_sum:
  fixes w :: nat
  assumes "0 < w" and "t \<noteq> []" and "length noisy_B = length t"
    and "\<forall>x. length (fst (welch x 50 (int w))) = length (snd (welch x 50 (int w)))"
  shows "\<exists>ps. spectral_power_features welch (int w) t noisy_B = Inr ps \<and>
    length ps = (length t - 1) div w \<and>
    (\<forall>k<length ps.
       length (map (\<lambda>j. fst (noisy_B ! j)) [k * w..<k * w + w]) = w \<and>
       ps ! k =
         (case welch (map (\<lambda>j. fst (noisy_B ! j)) [k * w..<k * w + w]) 50 (int w) of
            (freq, psd) \<Rightarrow>
              (\<Sum>i | i < length psd \<and> 1 \<le> freq ! i \<and> freq ! i \<le> 2. psd ! i) * 10 ^ 12))"
proof -
  define m where "m = (length t - 1) div w"
  define win where "win = (\<lambda>k. map (\<lambda>j. noisy_B ! j) [k * w..<k * w + w])"
  have wins: "feature_windows (int w) t noisy_B = Inr (map win [0..<m])"
    using feature_windows_eq[OF assms(1-3)] by (simp add: m_def win_def)
  have sig: "map fst (win k) = map (\<lambda>j. fst (noisy_B ! j)) [k * w..<k * w + w]" for k
    by (simp add: win_def comp_def)
  have each: "spectral_power welch (int w) (win k) =
      (case welch (map (\<lambda>j. fst (noisy_B ! j)) [k * w..<k * w + w]) 50 (int w) of
         (freq, psd) \<Rightarrow>
           (\<Sum>i | i < length psd \<and> 1 \<le> freq ! i \<and> freq ! i \<le> 2. psd ! i) * 10 ^ 12)" for k
    using spectral_power_band_sum[of welch "win k" "int w"] assms(4) by (simp only: sig)
  have "spectral_power_features welch (int w) t noisy_B = Inr (map (\<lambda>k. spectral_power welch (int w) (win k)) [0..<m])"
    by (simp add: spectral_power_features_def wins comp_def)
  then show ?thesis
    using each by (simp add: m_def)
qed

text \<open>
  A stand-in for Welch's method with bins at 0, 1, 2 and 3 Hz, on 101 samples with the
  script's window size: two windows.
\<close>

lemma band_bins: "{i. i < Suc (Suc (Suc (Suc 0))) \<and> 1 \<le> [0, 1, 2, 3 :: real] ! i \<and> [0, 1, 2, 3 :: real] ! i \<le> 2} = {1, 2}"
  by (auto simp: nth_Cons' less_Suc_eq numeral_eq_Suc split: if_splits)

theorem spectral_power_is_band_sum_witness:
  "replicate 101 (0 :: real) \<noteq> [] \<and>
   length ((replicate 50 (3, 0, 0) @ replicate 51 (5, 0, 0)) :: vec3 list) = length (replicate 101 (0 :: real)) \<and>
   spectral_power_features (\<lambda>x fs nperseg. ([0, 1, 2, 3], [7, x ! 0, x ! 49, 7])) window_size
     (replicate 101 (0 :: real)) (replicate 50 (3, 0, 0) @ replicate 51 (5, 0, 0)) =
   Inr [6 * 10 ^ 12, 10 * 10 ^ 12]"
proof -
  let ?welch = "\<lambda>(x :: real list) (fs :: real) (nperseg :: int). ([0, 1, 2, 3 :: real], [7, x ! 0, x ! 49, 7])"
  let ?B = "(replicate 50 (3, 0, 0) @ replicate 51 (5, 0, 0)) :: vec3 list"
  let ?t = "replicate 101 (0 :: real)"
  have "\<exists>ps. spectral_power_features ?welch (int 50) ?t ?B = Inr ps \<and>
    length ps = (length ?t - 1) div 50 \<and>
    (\<forall>k<length ps.
       length (map (\<lambda>j. fst (?B ! j)) [k * 50..<k * 50 + 50]) = 50 \<and>
       ps ! k =
         (case ?welch (map (\<lambda>j. fst (?B ! j)) [k * 50..<k * 50 + 50]) 50 (int 50) of
            (freq, psd) \<Rightarrow>
              (\<Sum>i | i < length psd \<and> 1 \<le> freq ! i \<and> freq ! i \<le> 2. psd ! i) * 10 ^ 12))"
    by (rule spectral_power_is_band_sum) simp_all
  then obtain ps where run: "spectral_power_features ?welch (int 50) ?t ?B = Inr ps"
    and len: "length ps = (length ?t - 1) div 50"
    and all: "\<forall>k<length ps. ps ! k =
         (case ?welch (map (\<lambda>j. fst (?B ! j)) [k * 50..<k * 50 + 50]) 50 (int 50) of
            (freq, psd) \<Rightarrow>
              (\<Sum>i | i < length psd \<and> 1 \<le> freq ! i \<and> freq ! i \<le> 2. psd ! i) * 10 ^ 12)"
    by blast
  from len have len2: "length ps = 2" by simp
  have p0: "ps ! 0 = 6 * 10 ^ 12"
    using all[rule_format, of 0] len2 by (simp add: band_bins nth_append)
  have p1: "ps ! 1 = 10 * 10 ^ 12"
    using all[rule_format, of 1] len2 by (simp add: band_bins nth_append)
  have "ps = [ps ! 0, ps ! 1]"
    using len2 by (intro nth_equalityI) (auto simp: less_Suc_eq numeral_2_eq_2)
  then have "ps = [6 * 10 ^ 12, 10 * 10 ^ 12]" using p0 p1 by simp
  with run show ?thesis by (simp add: window_size_def)
qed

end
